theory Spec2Isabelle
  imports Complex_Main "HOL-Library.AList"
begin

section \<open>Outgroup selection of progressive cactus (src/progressive/outgroup.py)\<close>

text \<open>
  The module holds two classes: \<open>GreedyOutgroup\<close> (tree import, distance tables, the greedy
  nearest-candidate assignment) and its subclass \<open>DynamicOutgroup\<close> (sequence statistics and
  a dynamic program over a re-rooted copy of the tree). Node identifiers are the integers of the
  tree library, event names are strings, branch lengths and distances are Python floats, which
  are read here as real numbers. Every exception the Python can raise is a value of \<open>error\<close>,
  and a method that can raise returns \<open>error + result\<close> (\<open>Inl\<close> the exception).
\<close>

type_synonym node = nat

datatype error =
  AssertionError | TypeError | KeyError | IndexError | ValueError
  | RuntimeError | NameError | NetworkXError | ZeroDivisionError

subsection \<open>The directed graph of the graph library\<close>

text \<open>
  \<open>self.dag\<close> is a networkx \<open>DiGraph\<close>: a collection of nodes and at most one edge per ordered
  pair of nodes, each edge with a weight (networkx reads a missing weight as 1). The operations
  below are the library calls the module makes. \<open>out_edges\<close> and \<open>in_edges\<close> of a node that is
  not in the graph raise \<open>NetworkXError\<close>; \<open>add_edge\<close> adds missing endpoints and overwrites the
  weight of an edge that is already there.
\<close>

record DiGraph =
  nodesG :: "node list"
  edgesG :: "(node \<times> node \<times> real) list"

definition arcs :: "DiGraph \<Rightarrow> (node \<times> node) list" where
  "arcs g = map (\<lambda>e. (fst e, fst (snd e))) (edgesG g)"

definition out_edges :: "DiGraph \<Rightarrow> node \<Rightarrow> error + (node \<times> node) list" where
  "out_edges g n =
     (if n \<in> set (nodesG g) then Inr (filter (\<lambda>a. fst a = n) (arcs g)) else Inl NetworkXError)"

definition in_edges :: "DiGraph \<Rightarrow> node \<Rightarrow> error + (node \<times> node) list" where
  "in_edges g n =
     (if n \<in> set (nodesG g) then Inr (filter (\<lambda>a. snd a = n) (arcs g)) else Inl NetworkXError)"

definition add_node :: "DiGraph \<Rightarrow> node \<Rightarrow> DiGraph" where
  "add_node g n = (if n \<in> set (nodesG g) then g else g\<lparr>nodesG := nodesG g @ [n]\<rparr>)"

definition add_edge :: "DiGraph \<Rightarrow> node \<Rightarrow> node \<Rightarrow> real \<Rightarrow> DiGraph" where
  "add_edge g u v w =
     (let g' = add_node (add_node g u) v
      in if (u, v) \<in> set (arcs g')
         then g'\<lparr>edgesG := map (\<lambda>e. if fst e = u \<and> fst (snd e) = v then (u, v, w) else e) (edgesG g')\<rparr>
         else g'\<lparr>edgesG := edgesG g' @ [(u, v, w)]\<rparr>)"

definition remove_edge :: "DiGraph \<Rightarrow> node \<Rightarrow> node \<Rightarrow> DiGraph" where
  "remove_edge g u v = g\<lparr>edgesG := filter (\<lambda>e. \<not> (fst e = u \<and> fst (snd e) = v)) (edgesG g)\<rparr>"

definition remove_node :: "DiGraph \<Rightarrow> node \<Rightarrow> DiGraph" where
  "remove_node g n =
     g\<lparr>nodesG := filter (\<lambda>m. m \<noteq> n) (nodesG g),
       edgesG := filter (\<lambda>e. fst e \<noteq> n \<and> fst (snd e) \<noteq> n) (edgesG g)\<rparr>"

text \<open>
  \<open>NX.Graph(self.dag)\<close>: the undirected graph is filled from the adjacency of the directed one,
  node by node and, under a node, edge by edge in the order the edges were added. An edge between
  \<open>u\<close> and \<open>v\<close> is written under \<open>u\<close> and under \<open>v\<close>; when the pair is there already (the directed
  graph held both \<open>u \<rightarrow> v\<close> and \<open>v \<rightarrow> u\<close>) its weight is overwritten in place, so the weight
  written last is the one that stays.
\<close>

definition put_edge ::
  "(node \<times> node \<times> real) list \<Rightarrow> node \<Rightarrow> node \<Rightarrow> real \<Rightarrow> (node \<times> node \<times> real) list" where
  "put_edge es u v w =
     (if (u, v) \<in> set (map (\<lambda>e. (fst e, fst (snd e))) es)
      then map (\<lambda>e. if fst e = u \<and> fst (snd e) = v then (u, v, w) else e) es
      else es @ [(u, v, w)])"

definition to_undirected :: "DiGraph \<Rightarrow> DiGraph" where
  "to_undirected g =
     g\<lparr>edgesG :=
         foldl (\<lambda>es e. put_edge (put_edge es (fst e) (fst (snd e)) (snd (snd e)))
                                 (fst (snd e)) (fst e) (snd (snd e)))
               []
               (concat (map (\<lambda>n. filter (\<lambda>e. fst e = n) (edgesG g)) (nodesG g)))\<rparr>"

text \<open>
  \<open>NX.is_directed_acyclic_graph\<close>: no directed cycle among the edges (a self-loop is a cycle).
\<close>

definition is_directed_acyclic_graph :: "DiGraph \<Rightarrow> bool" where
  "is_directed_acyclic_graph g = acyclic (set (arcs g))"

text \<open>
  An executable cycle test: the nodes reachable from a frontier in one to \<open>n\<close> steps, and a
  graph is cyclic when some edge source reaches itself within as many steps as there are edges.
\<close>

definition succs :: "(node \<times> node) list \<Rightarrow> node \<Rightarrow> node list" where
  "succs es u = map snd (filter (\<lambda>e. fst e = u) es)"

fun reachable_from :: "(node \<times> node) list \<Rightarrow> nat \<Rightarrow> node list \<Rightarrow> node list" where
  "reachable_from es 0 front = []"
| "reachable_from es (Suc n) front =
     (let nxt = remdups (concat (map (succs es) front)) in nxt @ reachable_from es n nxt)"

definition cyclic_list :: "(node \<times> node) list \<Rightarrow> bool" where
  "cyclic_list es = list_ex (\<lambda>u. u \<in> set (reachable_from es (length es) [u])) (remdups (map fst es))"

subsection \<open>All-pairs shortest path lengths\<close>

text \<open>
  \<open>all_pairs_dijkstra_path_length\<close> of networkx runs Dijkstra's algorithm from every node of
  the graph, one source after the other, and gives for every source the table of the nodes
  reached with their distance, the source itself at distance 0. The model follows the library's
  loop: \<open>dists\<close> holds the final distances, \<open>seen\<close> the tentative ones, and the fringe is the
  heap of \<open>(distance, node)\<close> entries, kept here as a list in the order the heap pops it
  (smallest distance first, the entry pushed earlier first among equals). Popping a node fixes
  its distance; each of its outgoing edges is then looked at in the order of the adjacency. A
  path to a node whose distance is already fixed that is shorter than that distance raises
  \<open>ValueError\<close> (``contradictory paths found: negative weights?''); so a negative weight can
  make the call fail, and the first source that fails ends the whole computation. The floating
  point weights are read as reals. A Python dict is an association list here; the table of a
  source is listed in the order of the graph's nodes, which decides ties of the later sort.
\<close>

type_synonym dtable = "(node \<times> (node \<times> real) list) list"

definition successors :: "DiGraph \<Rightarrow> node \<Rightarrow> (node \<times> real) list" where
  "successors g v = map snd (filter (\<lambda>e. fst e = v) (edgesG g))"

fun heappush :: "real \<times> node \<Rightarrow> (real \<times> node) list \<Rightarrow> (real \<times> node) list" where
  "heappush e [] = [e]"
| "heappush e (x # xs) = (if fst e < fst x then e # x # xs else x # heappush e xs)"

text \<open>The loop over the neighbours of the node just popped, whose distance is \<open>d\<close>.\<close>

fun relax_neighbours ::
  "real \<Rightarrow> (node \<times> real) list \<Rightarrow> (node \<times> real) list
     \<Rightarrow> (node \<times> real) list \<times> (real \<times> node) list
     \<Rightarrow> error + ((node \<times> real) list \<times> (real \<times> node) list)" where
  "relax_neighbours d dists [] sf = Inr sf"
| "relax_neighbours d dists (uc # rest) sf =
     (case map_of dists (fst uc) of
        Some du \<Rightarrow>
          (if d + snd uc < du then Inl ValueError else relax_neighbours d dists rest sf)
      | None \<Rightarrow>
          (case map_of (fst sf) (fst uc) of
             None \<Rightarrow>
               relax_neighbours d dists rest
                 (AList.update (fst uc) (d + snd uc) (fst sf), heappush (d + snd uc, fst uc) (snd sf))
           | Some su \<Rightarrow>
               (if d + snd uc < su
                then relax_neighbours d dists rest
                       (AList.update (fst uc) (d + snd uc) (fst sf), heappush (d + snd uc, fst uc) (snd sf))
                else relax_neighbours d dists rest sf)))"

text \<open>
  The loop over the fringe. It ends: every round either drops an entry of a node that is
  already done, or fixes a node that was not, and the fringe only ever holds the source and
  targets of edges.
\<close>

function dijkstra_loop ::
  "DiGraph \<Rightarrow> (node \<times> real) list \<Rightarrow> (node \<times> real) list \<Rightarrow> (real \<times> node) list
     \<Rightarrow> error + (node \<times> real) list" where
  "dijkstra_loop g dists seen [] = Inr dists"
| "dijkstra_loop g dists seen (dv # fringe) =
     (if map_of dists (snd dv) \<noteq> None then dijkstra_loop g dists seen fringe
      else
        (case relax_neighbours (fst dv) (dists @ [(snd dv, fst dv)]) (successors g (snd dv))
                (seen, fringe) of
           Inl e \<Rightarrow> Inl e
         | Inr sf \<Rightarrow> dijkstra_loop g (dists @ [(snd dv, fst dv)]) (fst sf) (snd sf)))"
  by pat_completeness auto
termination
proof (relation "measures
    [\<lambda>(g, dists, seen, fringe).
        card ((fst ` snd ` set (edgesG g) \<union> snd ` set fringe) - fst ` set dists),
     \<lambda>(g, dists, seen, fringe). length fringe]", goal_cases)
  case 1
  show ?case by simp
next
  case (2 g dists seen dv fringe)
  have "card ((fst ` snd ` set (edgesG g) \<union> snd ` set fringe) - fst ` set dists)
        \<le> card ((fst ` snd ` set (edgesG g) \<union> snd ` set (dv # fringe)) - fst ` set dists)"
    by (rule card_mono) auto
  then show ?case by auto
next
  case (3 g dists seen dv fringe sf)
  have hp: "set (heappush e xs) = insert e (set xs)" for e xs
    by (induction xs) auto
  have fr: "relax_neighbours d ds ns s = Inr s'
     \<Longrightarrow> snd ` set (snd s') \<subseteq> snd ` set (snd s) \<union> fst ` set ns" for d ds ns s s'
  proof (induction ns arbitrary: s)
    case Nil
    then show ?case by simp
  next
    case (Cons uc rest)
    show ?case
    proof (cases "map_of ds (fst uc)")
      case (Some du)
      with Cons.prems have "relax_neighbours d ds rest s = Inr s'"
        by (simp split: if_splits)
      from Cons.IH[OF this] show ?thesis by auto
    next
      case None
      let ?s2 = "(AList.update (fst uc) (d + snd uc) (fst s), heappush (d + snd uc, fst uc) (snd s))"
      from Cons.prems None
      consider "relax_neighbours d ds rest s = Inr s'"
        | "relax_neighbours d ds rest ?s2 = Inr s'"
        by (auto split: option.splits if_splits)
      then show ?thesis
      proof cases
        case 1
        from Cons.IH[OF this] show ?thesis by auto
      next
        case 2
        from Cons.IH[OF this] show ?thesis by (auto simp: hp)
      qed
    qed
  qed
  let ?T = "fst ` snd ` set (edgesG g)"
  from 3(1) have notin: "snd dv \<notin> fst ` set dists"
    by (simp add: map_of_eq_None_iff)
  from fr[OF 3(2)]
  have "snd ` set (snd sf) \<subseteq> snd ` set fringe \<union> ?T"
    by (auto simp: successors_def)
  then have "(?T \<union> snd ` set (snd sf)) - fst ` set (dists @ [(snd dv, fst dv)])
        \<subset> (?T \<union> snd ` set (dv # fringe)) - fst ` set dists"
    using notin by auto
  then have "card ((?T \<union> snd ` set (snd sf)) - fst ` set (dists @ [(snd dv, fst dv)]))
        < card ((?T \<union> snd ` set (dv # fringe)) - fst ` set dists)"
    by (intro psubset_card_mono) auto
  then show ?case by (simp add: case_prod_beta)
qed

text \<open>One source: the source starts in \<open>seen\<close> at 0 and alone on the fringe.\<close>

definition single_source_dijkstra_path_length :: "DiGraph \<Rightarrow> node \<Rightarrow> error + (node \<times> real) list" where
  "single_source_dijkstra_path_length g s =
     (case dijkstra_loop g [] [(s, 0)] [(0, s)] of
        Inl e \<Rightarrow> Inl e
      | Inr dists \<Rightarrow> Inr (List.map_filter (\<lambda>m. map_option (Pair m) (map_of dists m)) (nodesG g)))"

fun all_sources :: "DiGraph \<Rightarrow> node list \<Rightarrow> error + dtable" where
  "all_sources g [] = Inr []"
| "all_sources g (n # ns) =
     (case single_source_dijkstra_path_length g n of
        Inl e \<Rightarrow> Inl e
      | Inr row \<Rightarrow>
          (case all_sources g ns of
             Inl e \<Rightarrow> Inl e
           | Inr rows \<Rightarrow> Inr ((n, row) # rows)))"

definition all_pairs_dijkstra_path_length :: "DiGraph \<Rightarrow> error + dtable" where
  "all_pairs_dijkstra_path_length g = all_sources g (nodesG g)"

subsection \<open>The tree view\<close>

text \<open>
  \<open>MultiCactusTree\<close> is given to the module by its caller. The module reads the graph \<open>nxDg\<close>,
  the root and the set of subtree roots, and calls the accessors below, which are taken here as
  they are given: a name per node, a node per name, the leaf test, the breadth-first traversal
  from a node and the parent of a node (\<open>hasParent\<close> is \<open>getParent \<noteq> None\<close>).
\<close>

record MultiCactusTree =
  nxDg :: DiGraph
  rootId :: node
  subtreeRoots :: "node set"
  getName :: "node \<Rightarrow> string"
  getNodeId :: "string \<Rightarrow> node"
  isLeaf :: "node \<Rightarrow> bool"
  breadthFirstTraversal :: "node \<Rightarrow> node list"
  getParent :: "node \<Rightarrow> node option"

subsection \<open>\<open>GreedyOutgroup\<close>: the object and \<open>importTree\<close>\<close>

text \<open>
  The outgroup map is a dict from an event name to a list; the greedy assigner stores
  \<open>(name, distance)\<close> pairs, the dynamic program stores node lists, so the value type is a
  parameter. \<open>candidateMap\<close> is the attribute \<open>greedy\<close> creates; a dict whose emptiness is
  tested, it is an association list.
\<close>

record 'v GreedyOutgroup =
  dag :: DiGraph
  dm :: dtable
  dmDirected :: dtable
  root_node :: node
  ogMap :: "string \<rightharpoonup> 'v"
  mcTree :: MultiCactusTree

text \<open>
  \<open>stripNonEvents\<close> (lines 52-66). The parent is read as \<open>self.dag.in_edges[0][0]\<close>: the
  method \<open>in_edges\<close> itself (an edge view in later networkx versions) is subscripted with an
  integer, which raises \<open>TypeError\<close>. So a node with one parent never gets past that line. With
  no parent, \<open>parent\<close> stays \<open>None\<close>, which networkx refuses as an edge endpoint. The
  recursive call sits inside the removal branch, under the loop over the children, as in the
  source.
\<close>

definition in_edges_subscript :: "DiGraph \<Rightarrow> nat \<Rightarrow> error + (node \<times> node)" where
  "in_edges_subscript g k = Inl TypeError"

function stripNonEvents :: "DiGraph \<Rightarrow> node \<Rightarrow> node set \<Rightarrow> error + DiGraph"
  and stripChildren :: "DiGraph \<Rightarrow> node option \<Rightarrow> node list \<Rightarrow> node set \<Rightarrow> error + DiGraph"
where
  "stripNonEvents g i roots =
     (case out_edges g i of
        Inl e \<Rightarrow> Inl e
      | Inr oes \<Rightarrow>
          (case in_edges g i of
             Inl e \<Rightarrow> Inl e
           | Inr ies \<Rightarrow>
               (if \<not> length ies \<le> 1 then Inl AssertionError
                else
                  (case (if length ies = 1
                         then (case in_edges_subscript g 0 of
                                 Inl e \<Rightarrow> Inl e | Inr ed \<Rightarrow> Inr (Some (fst ed)))
                         else Inr None) of
                     Inl e \<Rightarrow> Inl e
                   | Inr parent \<Rightarrow>
                       (if i \<notin> roots \<and> length oes \<ge> 1 then
                          (if length ies \<noteq> 1 then Inl AssertionError
                           else stripChildren (remove_node g i) parent (map snd oes) roots)
                        else Inr g)))))"
| "stripChildren g parent [] roots = Inr g"
| "stripChildren g parent (child # rest) roots =
     (case parent of
        None \<Rightarrow> Inl ValueError
      | Some p \<Rightarrow>
          (case stripNonEvents (add_edge g p child 1) child roots of
             Inl e \<Rightarrow> Inl e
           | Inr g' \<Rightarrow> stripChildren g' parent rest roots))"
  by pat_completeness auto
termination
  by (relation "measure (\<lambda>x. case x of Inl _ \<Rightarrow> 0 | Inr (g, p, cs, r) \<Rightarrow> Suc (length cs))")
     (auto simp: in_edges_subscript_def split: if_splits)

text \<open>
  \<open>importTree\<close> (lines 39-49): copy the graph, strip, build the directed table, then the
  undirected one, and start an empty map. A failure of any step leaves the method at once.
\<close>

definition importTree :: "MultiCactusTree \<Rightarrow> error + ((string \<times> real) list) GreedyOutgroup" where
  "importTree t =
     (case stripNonEvents (nxDg t) (rootId t) (subtreeRoots t) of
        Inl e \<Rightarrow> Inl e
      | Inr g \<Rightarrow>
          (case all_pairs_dijkstra_path_length g of
             Inl e \<Rightarrow> Inl e
           | Inr dd \<Rightarrow>
               (case all_pairs_dijkstra_path_length (to_undirected g) of
                  Inl e \<Rightarrow> Inl e
                | Inr du \<Rightarrow>
                    Inr \<lparr>dag = g,
                         dm = du,
                         dmDirected = dd,
                         root_node = rootId t,
                         ogMap = Map.empty,
                         mcTree = t\<rparr>)))"

subsection \<open>\<open>GreedyOutgroup.greedy\<close>\<close>

text \<open>\<open>onSamePath\<close> (lines 70-77): membership tests in the directed table, both ways.\<close>

definition table_has :: "dtable \<Rightarrow> node \<Rightarrow> node \<Rightarrow> bool" where
  "table_has tb a b = (case map_of tb a of None \<Rightarrow> False | Some row \<Rightarrow> map_of row b \<noteq> None)"

definition onSamePath :: "'v GreedyOutgroup \<Rightarrow> node \<Rightarrow> node \<Rightarrow> bool" where
  "onSamePath st source sink =
     (if table_has (dmDirected st) source sink then True
      else if table_has (dmDirected st) sink source then True
      else False)"

text \<open>
  \<open>heightTable\<close> (lines 81-88) recurses along the out-edges of the current graph. The fuel
  bounds the depth of the recursion: running out of it is Python's \<open>RuntimeError\<close> for a
  recursion that is too deep, which is what a cycle in the graph leads to.
\<close>

fun max_list :: "int list \<Rightarrow> int" where
  "max_list [] = 0"
| "max_list [x] = x"
| "max_list (x # y # ys) = max x (max_list (y # ys))"

fun lookups :: "(node \<rightharpoonup> int) \<Rightarrow> node list \<Rightarrow> error + int list" where
  "lookups h [] = Inr []"
| "lookups h (c # cs) =
     (case h c of
        None \<Rightarrow> Inl KeyError
      | Some v \<Rightarrow> (case lookups h cs of Inl e \<Rightarrow> Inl e | Inr vs \<Rightarrow> Inr (v # vs)))"

fun heightTable :: "nat \<Rightarrow> DiGraph \<Rightarrow> node \<Rightarrow> (node \<rightharpoonup> int) \<Rightarrow> error + (node \<rightharpoonup> int)"
  and heightChildren :: "nat \<Rightarrow> DiGraph \<Rightarrow> node list \<Rightarrow> (node \<rightharpoonup> int) \<Rightarrow> error + (node \<rightharpoonup> int)"
where
  "heightTable 0 g n h = Inl RuntimeError"
| "heightTable (Suc fuel) g n h =
     (case out_edges g n of
        Inl e \<Rightarrow> Inl e
      | Inr oes \<Rightarrow>
          (if length oes = 0 then Inr (h(n \<mapsto> 0))
           else
             (case heightChildren fuel g (map snd oes) h of
                Inl e \<Rightarrow> Inl e
              | Inr h' \<Rightarrow>
                  (case lookups h' (map snd oes) of
                     Inl e \<Rightarrow> Inl e
                   | Inr hs \<Rightarrow> Inr (h'(n \<mapsto> max_list hs + 1))))))"
| "heightChildren fuel g [] h = Inr h"
| "heightChildren fuel g (c # cs) h =
     (case heightTable fuel g c h of
        Inl e \<Rightarrow> Inl e
      | Inr h' \<Rightarrow> heightChildren fuel g cs h')"

text \<open>
  \<open>inCandidateSet\<close> (lines 91-113) returns the answer and the memo table as it leaves it. A
  leaf counts as a candidate leaf when its name is a key of the table, whatever the value.
\<close>

definition inCandidateSet ::
  "MultiCactusTree \<Rightarrow> (string \<times> bool) list \<Rightarrow> node \<Rightarrow> real \<Rightarrow> bool \<times> (string \<times> bool) list" where
  "inCandidateSet t cm n candidateChildFrac =
     (if length cm = 0 then (True, cm)
      else
        (case map_of cm (getName t n) of
           Some b \<Rightarrow> (b, cm)
         | None \<Rightarrow>
             (let leaves = filter (isLeaf t) (breadthFirstTraversal t n);
                  candidateLeaves = length (filter (\<lambda>l. map_of cm (getName t l) \<noteq> None) leaves)
              in if length leaves = 0 then (False, (getName t n, False) # cm)
                 else if real candidateLeaves / real (length leaves) \<ge> candidateChildFrac
                 then (True, (getName t n, True) # cm)
                 else (False, (getName t n, False) # cm))))"

text \<open>The threshold test of lines 174-175; \<open>htable[...]\<close> of a missing node raises.\<close>

definition exceedsThreshold :: "int option \<Rightarrow> (node \<rightharpoonup> int) \<Rightarrow> node \<Rightarrow> node \<Rightarrow> error + bool" where
  "exceedsThreshold threshold h source sink =
     (case threshold of
        None \<Rightarrow> Inr False
      | Some t \<Rightarrow>
          (case h sink of
             None \<Rightarrow> Inl KeyError
           | Some hk \<Rightarrow>
               (case h source of
                  None \<Rightarrow> Inl KeyError
                | Some hs \<Rightarrow> Inr (hk - hs + 1 > t))))"

text \<open>
  The variables of the loop that are not attributes of the object, together with
  \<open>self.candidateMap\<close>, which \<open>greedy\<close> creates anew on entry.
\<close>

record greedyLocals =
  finished :: "node set"
  htable :: "node \<rightharpoonup> int"
  candidateMap :: "(string \<times> bool) list"

type_synonym ogList = "(string \<times> real) list"

type_synonym greedyState = "ogList GreedyOutgroup \<times> greedyLocals"

text \<open>
  One pass of the loop body (lines 153-194) for the candidate \<open>(dist, (source, sink))\<close>.
  \<open>self.ogMap\<close> is a \<open>defaultdict(list)\<close>: reading a missing name creates an empty list, which
  line 183 does.
\<close>

definition greedyStep ::
  "int option \<Rightarrow> real \<Rightarrow> int \<Rightarrow> greedyState \<Rightarrow> real \<times> node \<times> node \<Rightarrow> error + greedyState" where
  "greedyStep threshold candidateChildFrac maxNumOutgroups s candidate =
     (let st = fst s; loc = snd s;
          dist = fst candidate; source = fst (snd candidate); sink = snd (snd candidate);
          sourceName = getName (mcTree st) source;
          sinkName = getName (mcTree st) sink
      in case out_edges (dag st) source of
           Inl e \<Rightarrow> Inl e
         | Inr oes \<Rightarrow>
             (let fin1 = (if length oes = 0 then insert source (finished loc) else finished loc);
                  fin2 = (if (case ogMap st sourceName of
                                None \<Rightarrow> False
                              | Some l \<Rightarrow> int (length l) \<ge> maxNumOutgroups)
                          then insert source fin1 else fin1);
                  ic = inCandidateSet (mcTree st) (candidateMap loc) sink candidateChildFrac;
                  loc2 = loc\<lparr>finished := fin2, candidateMap := snd ic\<rparr>
              in if \<not> fst ic then Inr (st, loc2)
                 else
                   (case exceedsThreshold threshold (htable loc2) source sink of
                      Inl e \<Rightarrow> Inl e
                    | Inr True \<Rightarrow> Inr (st, loc2)
                    | Inr False \<Rightarrow>
                        (if source \<notin> fin2 \<and> \<not> onSamePath st source sink then
                           (let g' = add_edge (dag st) source sink dist
                            in if is_directed_acyclic_graph g' then
                                 (case htable loc2 source of
                                    None \<Rightarrow> Inl KeyError
                                  | Some hs \<Rightarrow>
                                      (case htable loc2 sink of
                                         None \<Rightarrow> Inl KeyError
                                       | Some hk \<Rightarrow>
                                           (let loc3 = loc2\<lparr>htable := (htable loc2)(source \<mapsto> max hs (hk + 1))\<rparr>;
                                                existing = (case ogMap st sourceName of None \<Rightarrow> [] | Some l \<Rightarrow> l);
                                                st3 = st\<lparr>dag := g', ogMap := (ogMap st)(sourceName \<mapsto> existing)\<rparr>
                                            in if sinkName \<in> set (map fst existing) then
                                                 (if map_of (rev existing) sinkName \<noteq> Some dist
                                                  then Inl AssertionError
                                                  else Inr (st3, loc3))
                                               else
                                                 (let l' = existing @ [(sinkName, dist)]
                                                  in Inr (st3\<lparr>ogMap := (ogMap st)(sourceName \<mapsto> l')\<rparr>,
                                                          loc3\<lparr>finished :=
                                                                  (if int (length l') \<ge> maxNumOutgroups
                                                                   then insert source fin2 else fin2)\<rparr>)))))
                               else Inr (st\<lparr>dag := remove_edge g' source sink\<rparr>, loc2))
                         else Inr (st, loc2)))))"

fun greedyLoop ::
  "int option \<Rightarrow> real \<Rightarrow> int \<Rightarrow> greedyState \<Rightarrow> (real \<times> node \<times> node) list \<Rightarrow> error + greedyState" where
  "greedyLoop threshold cfrac maxN s [] = Inr s"
| "greedyLoop threshold cfrac maxN s (c # cs) =
     (case greedyStep threshold cfrac maxN s c of
        Inl e \<Rightarrow> Inl e
      | Inr s' \<Rightarrow> greedyLoop threshold cfrac maxN s' cs)"

text \<open>Lines 137-142: the pairs of the undirected table without the root, sorted by distance
  (Python's sort is stable, as \<open>sort_key\<close> is).\<close>

definition orderedPairs :: "'v GreedyOutgroup \<Rightarrow> (real \<times> node \<times> node) list" where
  "orderedPairs st =
     sort_key fst
       (concat (map (\<lambda>row. map (\<lambda>ent. (snd ent, fst row, fst ent))
                               (filter (\<lambda>ent. fst row \<noteq> root_node st \<and> fst ent \<noteq> root_node st) (snd row)))
                    (dm st)))"

definition initialLocals :: "string list option \<Rightarrow> (node \<rightharpoonup> int) \<Rightarrow> greedyLocals" where
  "initialLocals candidateSet h =
     \<lparr>finished = {}, htable = h,
      candidateMap = (case candidateSet of None \<Rightarrow> [] | Some cs \<Rightarrow> map (\<lambda>c. (c, True)) cs)\<rparr>"

text \<open>
  \<open>greedy\<close> (lines 135-201). The candidate set is given by the list of its elements. The
  height table is computed over the current graph from the root; the loop runs over the sorted
  pairs; at the end every list of the map is sorted by distance.
\<close>

definition greedy ::
  "ogList GreedyOutgroup \<Rightarrow> int option \<Rightarrow> string list option \<Rightarrow> real \<Rightarrow> int \<Rightarrow> error + ogList GreedyOutgroup" where
  "greedy st threshold candidateSet candidateChildFrac maxNumOutgroups =
     (case heightTable (Suc (length (nodesG (dag st)))) (dag st) (root_node st) Map.empty of
        Inl e \<Rightarrow> Inl e
      | Inr h \<Rightarrow>
          (case greedyLoop threshold candidateChildFrac maxNumOutgroups
                  (st, initialLocals candidateSet h) (orderedPairs st) of
             Inl e \<Rightarrow> Inl e
           | Inr s \<Rightarrow> Inr ((fst s)\<lparr>ogMap := (\<lambda>n. map_option (sort_key snd) (ogMap (fst s) n))\<rparr>)))"

subsection \<open>\<open>DynamicOutgroup\<close>: sequence statistics\<close>

record SeqInfo =
  count :: int
  totalLen :: int

record 'v DynamicOutgroup = "'v GreedyOutgroup" +
  sequenceInfo :: "node \<rightharpoonup> SeqInfo"
  numOG :: nat
  defaultBranchLength :: real

text \<open>
  What \<open>importTree\<close> sees of the file system: a path is a regular file holding FASTA records
  (name and sequence), a directory listing its entries, or nothing at all.
\<close>

datatype fsnode = RegularFile "(string \<times> string) list" | Directory "fsnode list" | NoSuchPath

text \<open>
  The loop over the files of one event (lines 236-245). \<open>count\<close> and \<open>totalLen\<close> are set to
  zero at the top of the body, once per file, and are variables of the whole method: with no
  file at all they keep the values of the event before, or are unbound.
\<close>

fun readFiles :: "fsnode list \<Rightarrow> (int \<times> int) option \<Rightarrow> error + (int \<times> int) option" where
  "readFiles [] cur = Inr cur"
| "readFiles (RegularFile recs # fs) cur =
     readFiles fs (Some (int (length recs), sum_list (map (\<lambda>r. int (length (snd r))) recs)))"
| "readFiles (f # fs) cur = Inl RuntimeError"

text \<open>The walk from a node to the root (lines 253-261); it need not end on a parent map
  that is not a tree's.\<close>

partial_function (option) propagate ::
  "MultiCactusTree \<Rightarrow> int \<Rightarrow> int \<Rightarrow> node \<Rightarrow> (node \<rightharpoonup> SeqInfo) \<Rightarrow> (node \<rightharpoonup> SeqInfo) option" where
  "propagate t c len x info =
     (case getParent t x of
        None \<Rightarrow> Some info
      | Some p \<Rightarrow>
          propagate t c len p
            (case info p of
               None \<Rightarrow> info(p \<mapsto> \<lparr>count = c, totalLen = len\<rparr>)
             | Some old \<Rightarrow> info(p \<mapsto> \<lparr>count = min c (count old), totalLen = max len (totalLen old)\<rparr>)))"

fun importSequenceInfo ::
  "MultiCactusTree \<Rightarrow> (string \<times> fsnode) list \<Rightarrow> (int \<times> int) option \<Rightarrow> (node \<rightharpoonup> SeqInfo)
     \<Rightarrow> (error + (node \<rightharpoonup> SeqInfo)) option" where
  "importSequenceInfo t [] cur info = Some (Inr info)"
| "importSequenceInfo t (item # rest) cur info =
     (let node = getNodeId t (fst item);
          fastaPaths = (case snd item of Directory fs \<Rightarrow> fs | p \<Rightarrow> [p])
      in case readFiles fastaPaths cur of
           Inl e \<Rightarrow> Some (Inl e)
         | Inr None \<Rightarrow> Some (Inl NameError)
         | Inr (Some ct) \<Rightarrow>
             (case propagate t (fst ct) (snd ct) node
                     (info(node \<mapsto> \<lparr>count = fst ct, totalLen = snd ct\<rparr>)) of
                None \<Rightarrow> None
              | Some info' \<Rightarrow> importSequenceInfo t rest (Some ct) info'))"

text \<open>\<open>DynamicOutgroup.importTree\<close> (lines 223-261) of an object made with \<open>numOG\<close>.\<close>

definition DynamicOutgroup_importTree ::
  "nat \<Rightarrow> MultiCactusTree \<Rightarrow> (string \<times> fsnode) list \<Rightarrow> (error + ogList DynamicOutgroup) option" where
  "DynamicOutgroup_importTree k t seqMap =
     (case importTree t of
        Inl e \<Rightarrow> Some (Inl e)
      | Inr st \<Rightarrow>
          (case importSequenceInfo t seqMap None Map.empty of
             None \<Rightarrow> None
           | Some (Inl e) \<Rightarrow> Some (Inl e)
           | Some (Inr info) \<Rightarrow>
               Some (Inr \<lparr>dag = dag st, dm = dm st, dmDirected = dmDirected st,
                          root_node = root_node st, ogMap = ogMap st, mcTree = mcTree st,
                          sequenceInfo = info, numOG = k, defaultBranchLength = 1 / 10\<rparr>)))"

subsection \<open>\<open>DynamicOutgroup\<close>: the dynamic program\<close>

text \<open>
  The working tree \<open>self.dpTree\<close>: a rooted ordered tree; each node carries its identifier and
  the weight of the edge from its parent (\<open>None\<close> at the root and for an edge without weight).
\<close>

datatype nxtree = NXNode node "real option" "nxtree list"

fun nodeOf :: "nxtree \<Rightarrow> node" where
  "nodeOf (NXNode n w cs) = n"

fun preOrderTraversal :: "nxtree \<Rightarrow> (node \<times> real option) list" where
  "preOrderTraversal (NXNode n w cs) = (n, w) # concat (map preOrderTraversal cs)"

record DPEntry =
  score :: real
  solution :: "node list"

record dpState =
  dpTree :: nxtree
  rootSeqInfo :: SeqInfo
  branchProbs :: "node \<rightharpoonup> real"
  dpTable :: "node \<rightharpoonup> DPEntry list"

text \<open>\<open>__computeBranchConservation\<close> (lines 351-371) for a node with its branch weight.\<close>

definition computeBranchConservation ::
  "(node \<rightharpoonup> SeqInfo) \<Rightarrow> SeqInfo \<Rightarrow> real \<Rightarrow> node \<times> real option \<Rightarrow> error + real" where
  "computeBranchConservation info rootInfo dflt nw =
     (case info (fst nw) of
        None \<Rightarrow> Inl KeyError
      | Some nodeInfo \<Rightarrow>
          (if totalLen rootInfo = 0 then Inl ZeroDivisionError
           else
             (let lenFrac = real_of_int (totalLen nodeInfo) / real_of_int (totalLen rootInfo);
                  pLoss = max 0 (1 - lenFrac);
                  numExtraFrag = max 0 (count nodeInfo - count rootInfo);
                  pFrag = real_of_int numExtraFrag / real_of_int (totalLen rootInfo);
                  branchLength = (case snd nw of
                                    None \<Rightarrow> dflt
                                  | Some b \<Rightarrow> if b < 0 \<or> b \<ge> 1 then dflt else b);
                  jcMutProb = 3 / 4 - 3 / 4 * exp (- branchLength)
              in Inr ((1 - pLoss) * (1 - pFrag) * (1 - jcMutProb)))))"

fun branchLoop ::
  "(node \<rightharpoonup> SeqInfo) \<Rightarrow> SeqInfo \<Rightarrow> real \<Rightarrow> (node \<times> real option) list \<Rightarrow> (node \<rightharpoonup> real)
     \<Rightarrow> error + (node \<rightharpoonup> real)" where
  "branchLoop info rootInfo dflt [] bp = Inr bp"
| "branchLoop info rootInfo dflt (nw # rest) bp =
     (case computeBranchConservation info rootInfo dflt nw of
        Inl e \<Rightarrow> Inl e
      | Inr p \<Rightarrow> branchLoop info rootInfo dflt rest (bp(fst nw \<mapsto> p)))"

text \<open>Lines 301-304: every node of the working tree gets \<open>numOG + 1\<close> entries \<open>(0.0, [])\<close>.\<close>

definition initTable :: "nat \<Rightarrow> nxtree \<Rightarrow> (node \<rightharpoonup> DPEntry list)" where
  "initTable k t =
     foldl (\<lambda>tab nw. tab(fst nw \<mapsto> replicate (k + 1) \<lparr>score = 0, solution = []\<rparr>))
           Map.empty (preOrderTraversal t)"

text \<open>
  \<open>__dpInit\<close> (lines 279-304). The deep copy with the edges to the children of the ancestor
  removed and re-rooted at the ancestor is built by the tree class; it is the argument
  \<open>working\<close>. \<open>rootSeqInfo\<close> is read before the re-rooting, at the root of the original tree.
  Of the working tree only the root has no parent.
\<close>

definition dpInit :: "'v DynamicOutgroup \<Rightarrow> nxtree \<Rightarrow> error + dpState" where
  "dpInit st working =
     (case sequenceInfo st (rootId (mcTree st)) of
        None \<Rightarrow> Inl KeyError
      | Some ri \<Rightarrow>
          (case branchLoop (sequenceInfo st) ri (defaultBranchLength st)
                  (tl (preOrderTraversal working)) Map.empty of
             Inl e \<Rightarrow> Inl e
           | Inr bp \<Rightarrow>
               Inr \<lparr>dpTree = working, rootSeqInfo = ri, branchProbs = bp,
                    dpTable = initTable (numOG st) working\<rparr>))"

text \<open>
  \<open>__dpNode\<close> (lines 308-340). The inner loop over the children (lines 327-333) starts the
  loss probability at \<open>0.\<close> and multiplies into it.
\<close>

fun childLoop ::
  "(node \<rightharpoonup> DPEntry list) \<Rightarrow> (node \<rightharpoonup> real) \<Rightarrow> (node \<times> nat) list \<Rightarrow> real \<times> node list
     \<Rightarrow> error + (real \<times> node list)" where
  "childLoop tab bp [] acc = Inr acc"
| "childLoop tab bp (ck # rest) acc =
     (case tab (fst ck) of
        None \<Rightarrow> Inl KeyError
      | Some row \<Rightarrow>
          (if snd ck \<ge> length row then Inl IndexError
           else
             (case bp (fst ck) of
                None \<Rightarrow> Inl KeyError
              | Some b \<Rightarrow>
                  childLoop tab bp rest
                    (fst acc * (1 - b * score (row ! snd ck)),
                     snd acc @ solution (row ! snd ck)))))"

definition allocStep ::
  "nat \<Rightarrow> (node \<rightharpoonup> real) \<Rightarrow> node \<Rightarrow> node list \<Rightarrow> (node \<rightharpoonup> DPEntry list) \<Rightarrow> nat list
     \<Rightarrow> error + (node \<rightharpoonup> DPEntry list)" where
  "allocStep k bp n children tab scoreAlloc =
     (let csetK = sum_list scoreAlloc
      in if csetK > k then Inr tab
         else
           (case childLoop tab bp (zip children scoreAlloc) (0, []) of
              Inl e \<Rightarrow> Inl e
            | Inr ls \<Rightarrow>
                (let consProb = 1 - fst ls
                 in if \<not> (consProb \<ge> 0 \<and> consProb \<le> 1) then Inl AssertionError
                    else if \<not> length (snd ls) \<le> csetK then Inl AssertionError
                    else
                      (case tab n of
                         None \<Rightarrow> Inl KeyError
                       | Some row \<Rightarrow>
                           (if csetK \<ge> length row then Inl IndexError
                            else if consProb > score (row ! csetK) \<and> length (snd ls) = csetK
                            then Inr (tab(n \<mapsto> row[csetK := \<lparr>score = consProb, solution = snd ls\<rparr>]))
                            else Inr tab)))))"

fun allocLoop ::
  "nat \<Rightarrow> (node \<rightharpoonup> real) \<Rightarrow> node \<Rightarrow> node list \<Rightarrow> (node \<rightharpoonup> DPEntry list) \<Rightarrow> nat list list
     \<Rightarrow> error + (node \<rightharpoonup> DPEntry list)" where
  "allocLoop k bp n children tab [] = Inr tab"
| "allocLoop k bp n children tab (a # rest) =
     (case allocStep k bp n children tab a of
        Inl e \<Rightarrow> Inl e
      | Inr tab' \<Rightarrow> allocLoop k bp n children tab' rest)"

definition dpNode ::
  "nat \<Rightarrow> (node \<rightharpoonup> real) \<Rightarrow> node \<Rightarrow> node list \<Rightarrow> (node \<rightharpoonup> DPEntry list)
     \<Rightarrow> error + (node \<rightharpoonup> DPEntry list)" where
  "dpNode k bp n children tab =
     (if length children = 0 then
        (case tab n of
           None \<Rightarrow> Inl KeyError
         | Some row \<Rightarrow>
             (if 1 \<ge> length row then Inl IndexError
              else Inr (tab(n \<mapsto> row[1 := \<lparr>score = 1, solution = [n]\<rparr>]))))
      else allocLoop k bp n children tab
             (product_lists (replicate (length children) [0..<k + 1])))"

text \<open>\<open>__dpRun\<close> (lines 344-347): the children first, then the node.\<close>

fun dpRun ::
  "nat \<Rightarrow> (node \<rightharpoonup> real) \<Rightarrow> nxtree \<Rightarrow> (node \<rightharpoonup> DPEntry list) \<Rightarrow> error + (node \<rightharpoonup> DPEntry list)"
  and dpRunChildren ::
  "nat \<Rightarrow> (node \<rightharpoonup> real) \<Rightarrow> nxtree list \<Rightarrow> (node \<rightharpoonup> DPEntry list) \<Rightarrow> error + (node \<rightharpoonup> DPEntry list)"
where
  "dpRun k bp (NXNode n w cs) tab =
     (case dpRunChildren k bp cs tab of
        Inl e \<Rightarrow> Inl e
      | Inr tab' \<Rightarrow> dpNode k bp n (map nodeOf cs) tab')"
| "dpRunChildren k bp [] tab = Inr tab"
| "dpRunChildren k bp (c # cs) tab =
     (case dpRun k bp c tab of
        Inl e \<Rightarrow> Inl e
      | Inr tab' \<Rightarrow> dpRunChildren k bp cs tab')"

text \<open>
  \<open>compute\<close> (lines 264-275): start from an empty map; for every node of the breadth-first
  traversal that is not a leaf, initialise and run the program on the working tree of that node,
  store the solution for \<open>numOG\<close> under the node's name and add an edge to every chosen node.
  \<open>working\<close> gives the working tree of each ancestor (see \<open>dpInit\<close>).
\<close>

definition emptyMap :: "'v DynamicOutgroup \<Rightarrow> (node list) DynamicOutgroup" where
  "emptyMap st =
     \<lparr>dag = dag st, dm = dm st, dmDirected = dmDirected st, root_node = root_node st,
      ogMap = Map.empty, mcTree = mcTree st,
      sequenceInfo = sequenceInfo st, numOG = numOG st,
      defaultBranchLength = defaultBranchLength st\<rparr>"

definition computeNode ::
  "(node \<Rightarrow> nxtree) \<Rightarrow> (node list) DynamicOutgroup \<Rightarrow> node \<Rightarrow> error + (node list) DynamicOutgroup" where
  "computeNode working st n =
     (if isLeaf (mcTree st) n then Inr st
      else
        (case dpInit st (working n) of
           Inl e \<Rightarrow> Inl e
         | Inr dp \<Rightarrow>
             (case dpRun (numOG st) (branchProbs dp) (dpTree dp) (dpTable dp) of
                Inl e \<Rightarrow> Inl e
              | Inr tab \<Rightarrow>
                  (case tab n of
                     None \<Rightarrow> Inl KeyError
                   | Some row \<Rightarrow>
                       (if numOG st \<ge> length row then Inl IndexError
                        else
                          (let sol = solution (row ! numOG st)
                           in Inr (st\<lparr>ogMap := (ogMap st)(getName (mcTree st) n \<mapsto> sol),
                                      dag := foldl (\<lambda>g og. add_edge g n og 1) (dag st) sol\<rparr>)))))))"

fun computeLoop ::
  "(node \<Rightarrow> nxtree) \<Rightarrow> (node list) DynamicOutgroup \<Rightarrow> node list \<Rightarrow> error + (node list) DynamicOutgroup" where
  "computeLoop working st [] = Inr st"
| "computeLoop working st (n # ns) =
     (case computeNode working st n of
        Inl e \<Rightarrow> Inl e
      | Inr st' \<Rightarrow> computeLoop working st' ns)"

definition compute ::
  "(node \<Rightarrow> nxtree) \<Rightarrow> 'v DynamicOutgroup \<Rightarrow> error + (node list) DynamicOutgroup" where
  "compute working st =
     computeLoop working (emptyMap st)
       (breadthFirstTraversal (mcTree st) (rootId (mcTree st)))"

subsection \<open>Notions used in the statements\<close>

text \<open>The list the map holds for a name; a missing name reads as the empty list, as the
  \<open>defaultdict\<close> does.\<close>

definition entries :: "ogList GreedyOutgroup \<Rightarrow> string \<Rightarrow> ogList" where
  "entries st nm = (case ogMap st nm of None \<Rightarrow> [] | Some l \<Rightarrow> l)"

text \<open>
  \<open>extends st mx nm st'\<close>: the list of \<open>nm\<close> in \<open>st'\<close> is the list in \<open>st\<close> with entries
  appended at its end, and is no longer than the longer of the old list and \<open>mx\<close> (at least 1).
\<close>

definition extends :: "ogList GreedyOutgroup \<Rightarrow> int \<Rightarrow> string \<Rightarrow> ogList GreedyOutgroup \<Rightarrow> bool" where
  "extends st mx nm st' =
     ((\<exists>new. entries st' nm = entries st nm @ new)
      \<and> int (length (entries st' nm)) \<le> max (int (length (entries st nm))) (max mx 1))"

text \<open>The two distance tables of a state are those the library computes for the graph \<open>g\<close> (the
  graph as it was imported; \<open>greedy\<close> changes \<open>dag\<close>, never the tables).\<close>

definition tablesOf :: "DiGraph \<Rightarrow> 'v GreedyOutgroup \<Rightarrow> bool" where
  "tablesOf g st =
     (all_pairs_dijkstra_path_length (to_undirected g) = Inr (dm st)
      \<and> all_pairs_dijkstra_path_length g = Inr (dmDirected st))"

text \<open>No name is listed among its own outgroups.\<close>

definition noSelfOutgroup :: "ogList GreedyOutgroup \<Rightarrow> bool" where
  "noSelfOutgroup st = (\<forall>nm. nm \<notin> fst ` set (entries st nm))"

text \<open>Two objects agree on every attribute but the outgroup map.\<close>

definition sameButMap :: "'a DynamicOutgroup \<Rightarrow> 'b DynamicOutgroup \<Rightarrow> bool" where
  "sameButMap a b =
     (dag a = dag b \<and> dm a = dm b \<and> dmDirected a = dmDirected b \<and> root_node a = root_node b
      \<and> mcTree a = mcTree b \<and> sequenceInfo a = sequenceInfo b \<and> numOG a = numOG b
      \<and> defaultBranchLength a = defaultBranchLength b)"

text \<open>
  The number of assignments of a run, summed over the names of the nodes, and the run that
  yields it.
\<close>

definition totalAssignments :: "string list \<Rightarrow> ogList GreedyOutgroup \<Rightarrow> nat" where
  "totalAssignments names st = sum_list (map (\<lambda>nm. length (entries st nm)) names)"

definition greedyTotal ::
  "ogList GreedyOutgroup \<Rightarrow> string list \<Rightarrow> int option \<Rightarrow> string list option \<Rightarrow> real \<Rightarrow> int \<Rightarrow> error + nat" where
  "greedyTotal st names threshold candidateSet cfrac maxN =
     (case greedy st threshold candidateSet cfrac maxN of
        Inl e \<Rightarrow> Inl e
      | Inr st' \<Rightarrow> Inr (totalAssignments names st'))"

text \<open>
  The survival probability as the design states it for one split of the budget over the children:
  one minus the product, over the children, of one minus branch conservation times the child's
  score. It is written here from the design, to be compared with what \<open>allocStep\<close> computes.
\<close>

definition specSurvival :: "(node \<Rightarrow> real) \<Rightarrow> (node \<Rightarrow> nat \<Rightarrow> real) \<Rightarrow> node list \<Rightarrow> nat list \<Rightarrow> real" where
  "specSurvival bc sc children alloc =
     1 - prod_list (map (\<lambda>ck. 1 - bc (fst ck) * sc (fst ck) (snd ck)) (zip children alloc))"

text \<open>
  The statistics of a leaf as the design states them: the number of records and the sum of the
  record lengths over all files of the leaf. Written from the design, to be compared with what
  \<open>readFiles\<close> computes.
\<close>

definition allFilesStats :: "fsnode list \<Rightarrow> int \<times> int" where
  "allFilesStats fs =
     (sum_list (map (\<lambda>f. case f of RegularFile recs \<Rightarrow> int (length recs) | _ \<Rightarrow> 0) fs),
      sum_list (map (\<lambda>f. case f of RegularFile recs \<Rightarrow> sum_list (map (\<lambda>r. int (length (snd r))) recs)
                                 | _ \<Rightarrow> 0) fs))"

subsection \<open>Example inputs\<close>

text \<open>
  The caterpillar tree \<open>((A:1,B:1)X:1,C:1)root\<close> with nodes 0 (root), 1 (X), 2 (A), 3 (B),
  4 (C), and the object \<open>importTree\<close> makes of it.
\<close>

definition exGraph :: DiGraph where
  "exGraph = \<lparr>nodesG = [0, 1, 2, 3, 4], edgesG = [(0, 1, 1), (0, 4, 1), (1, 2, 1), (1, 3, 1)]\<rparr>"

definition exName :: "node \<Rightarrow> string" where
  "exName n = (if n = 0 then ''root'' else if n = 1 then ''X'' else if n = 2 then ''A''
               else if n = 3 then ''B'' else ''C'')"

definition exTree :: MultiCactusTree where
  "exTree =
     \<lparr>nxDg = exGraph, rootId = 0, subtreeRoots = {0, 1}, getName = exName,
      getNodeId = (\<lambda>s. if s = ''root'' then 0 else if s = ''X'' then 1 else if s = ''A'' then 2
                        else if s = ''B'' then 3 else 4),
      isLeaf = (\<lambda>n. n = 2 \<or> n = 3 \<or> n = 4),
      breadthFirstTraversal = (\<lambda>n. if n = 0 then [0, 1, 4, 2, 3] else if n = 1 then [1, 2, 3] else [n]),
      getParent = (\<lambda>n. if n = 1 \<or> n = 4 then Some 0 else if n = 2 \<or> n = 3 then Some 1 else None)\<rparr>"

definition exState :: "ogList GreedyOutgroup" where
  "exState =
     \<lparr>dag = exGraph,
      dm = [(0, [(0, 0), (1, 1), (2, 2), (3, 2), (4, 1)]),
            (1, [(0, 1), (1, 0), (2, 1), (3, 1), (4, 2)]),
            (2, [(0, 2), (1, 1), (2, 0), (3, 2), (4, 3)]),
            (3, [(0, 2), (1, 1), (2, 2), (3, 0), (4, 3)]),
            (4, [(0, 1), (1, 2), (2, 3), (3, 3), (4, 0)])],
      dmDirected = [(0, [(0, 0), (1, 1), (2, 2), (3, 2), (4, 1)]),
                    (1, [(1, 0), (2, 1), (3, 1)]), (2, [(2, 0)]), (3, [(3, 0)]), (4, [(4, 0)])],
      root_node = 0, ogMap = Map.empty, mcTree = exTree\<rparr>"

text \<open>
  A tree with two branches of different depth: \<open>root\<close> (0) has the children \<open>X\<close> (1) and
  \<open>Y\<close> (3); \<open>X\<close> has the leaf \<open>a\<close> (2); \<open>Y\<close> has the child \<open>W\<close> (4), which has the leaf
  \<open>Z\<close> (5). All branch lengths are 1. The candidate set names \<open>X\<close>, \<open>Y\<close> and \<open>Z\<close>.
\<close>

definition cxGraph :: DiGraph where
  "cxGraph = \<lparr>nodesG = [0, 1, 2, 3, 4, 5],
              edgesG = [(0, 1, 1), (1, 2, 1), (0, 3, 1), (3, 4, 1), (4, 5, 1)]\<rparr>"

definition cxName :: "node \<Rightarrow> string" where
  "cxName n = (if n = 0 then ''root'' else if n = 1 then ''X'' else if n = 2 then ''a''
               else if n = 3 then ''Y'' else if n = 4 then ''W'' else ''Z'')"

definition cxTree :: MultiCactusTree where
  "cxTree =
     \<lparr>nxDg = cxGraph, rootId = 0, subtreeRoots = {0, 1, 3, 4}, getName = cxName,
      getNodeId = (\<lambda>s. if s = ''root'' then 0 else if s = ''X'' then 1 else if s = ''a'' then 2
                        else if s = ''Y'' then 3 else if s = ''W'' then 4 else 5),
      isLeaf = (\<lambda>n. n = 2 \<or> n = 5),
      breadthFirstTraversal =
        (\<lambda>n. if n = 0 then [0, 1, 3, 2, 4, 5] else if n = 1 then [1, 2]
              else if n = 3 then [3, 4, 5] else if n = 4 then [4, 5] else [n]),
      getParent = (\<lambda>n. if n = 1 \<or> n = 3 then Some 0 else if n = 2 then Some 1
                        else if n = 4 then Some 3 else if n = 5 then Some 4 else None)\<rparr>"

definition cxState :: "ogList GreedyOutgroup" where
  "cxState =
     \<lparr>dag = cxGraph,
      dm = [(0, [(0, 0), (1, 1), (2, 2), (3, 1), (4, 2), (5, 3)]),
            (1, [(0, 1), (1, 0), (2, 1), (3, 2), (4, 3), (5, 4)]),
            (2, [(0, 2), (1, 1), (2, 0), (3, 3), (4, 4), (5, 5)]),
            (3, [(0, 1), (1, 2), (2, 3), (3, 0), (4, 1), (5, 2)]),
            (4, [(0, 2), (1, 3), (2, 4), (3, 1), (4, 0), (5, 1)]),
            (5, [(0, 3), (1, 4), (2, 5), (3, 2), (4, 1), (5, 0)])],
      dmDirected = [(0, [(0, 0), (1, 1), (2, 2), (3, 1), (4, 2), (5, 3)]),
                    (1, [(1, 0), (2, 1)]), (2, [(2, 0)]), (3, [(3, 0), (4, 1), (5, 2)]),
                    (4, [(4, 0), (5, 1)]), (5, [(5, 0)])],
      root_node = 0, ogMap = Map.empty, mcTree = cxTree\<rparr>"

definition cxCands :: "string list" where
  "cxCands = [''X'', ''Y'', ''Z'']"

text \<open>A chain \<open>0 \<rightarrow> 1 \<rightarrow> 2\<close>; the caterpillar with one more node, 5, that no edge touches; and
  a chain whose second branch has a negative length.\<close>

definition chainGraph :: DiGraph where
  "chainGraph = \<lparr>nodesG = [0, 1, 2], edgesG = [(0, 1, 1), (1, 2, 1)]\<rparr>"

definition islandGraph :: DiGraph where
  "islandGraph = \<lparr>nodesG = [0, 1, 2, 3, 4, 5], edgesG = [(0, 1, 1), (0, 4, 1), (1, 2, 1), (1, 3, 1)]\<rparr>"

definition islandTree :: MultiCactusTree where
  "islandTree = exTree\<lparr>nxDg := islandGraph\<rparr>"

definition negGraph :: DiGraph where
  "negGraph = \<lparr>nodesG = [0, 1, 2], edgesG = [(0, 1, 1), (1, 2, - 1)]\<rparr>"

definition negTree :: MultiCactusTree where
  "negTree = exTree\<lparr>nxDg := negGraph\<rparr>"

text \<open>
  Sequence files for the leaves \<open>A\<close> and \<open>B\<close> of the caterpillar: \<open>A\<close> is a directory of two
  files with three records and seven bases in all, \<open>B\<close> a single file.
\<close>

definition seqExample :: "(string \<times> fsnode) list" where
  "seqExample =
     [(''A'', Directory [RegularFile [(''s1'', ''ACGT''), (''s2'', ''AC'')], RegularFile [(''s3'', ''G'')]]),
      (''B'', RegularFile [(''t1'', ''ACGTA'')])]"

text \<open>
  The working tree of the ancestor \<open>X\<close> of the caterpillar: \<open>X\<close> is cut from its children and
  made the root, its former parent \<open>root\<close> hangs below it with the leaf \<open>C\<close>. For the root of
  the caterpillar the working tree is the root alone. \<open>dynExample\<close> is a \<open>DynamicOutgroup\<close>
  object over the caterpillar whose map still holds entries of an earlier greedy run.
\<close>

definition dpExample :: nxtree where
  "dpExample = NXNode 1 None [NXNode 0 (Some 1) [NXNode 4 (Some 1) []]]"

definition exWorking :: "node \<Rightarrow> nxtree" where
  "exWorking n =
     (if n = 0 then NXNode 0 None []
      else NXNode 1 None [NXNode 0 (Some 1) [NXNode 4 (Some 1) []]])"

definition dynExample :: "ogList DynamicOutgroup" where
  "dynExample =
     \<lparr>dag = exGraph, dm = dm exState, dmDirected = dmDirected exState, root_node = 0,
      ogMap = [''X'' \<mapsto> [(''C'', 2)], ''C'' \<mapsto> [(''A'', 3)]], mcTree = exTree,
      sequenceInfo = (\<lambda>n. Some \<lparr>count = 1, totalLen = 10\<rparr>), numOG = 1,
      defaultBranchLength = 1 / 10\<rparr>"

section \<open>Properties\<close>

subsection \<open>The cycle test computes acyclicity\<close>

lemma succs_set: "set (succs es u) = {v. (u, v) \<in> set es}"
  by (auto simp: succs_def image_iff)

lemma reachable_from_set:
  "set (reachable_from es n front) =
     {v. \<exists>u \<in> set front. \<exists>k. 0 < k \<and> k \<le> n \<and> (u, v) \<in> (set es) ^^ k}"
proof (induction n arbitrary: front)
  case 0
  show ?case by simp
next
  case (Suc n)
  note IH = Suc.IH
  let ?nxt = "remdups (concat (map (succs es) front))"
  have nxt: "set ?nxt = {w. \<exists>u \<in> set front. (u, w) \<in> set es}"
    by (auto simp: succs_set)
  show ?case
  proof (rule set_eqI, rule iffI)
    fix v
    assume "v \<in> set (reachable_from es (Suc n) front)"
    then consider "v \<in> set ?nxt" | "v \<in> set (reachable_from es n ?nxt)"
      by (auto simp: Let_def)
    then show "v \<in> {v. \<exists>u \<in> set front. \<exists>k. 0 < k \<and> k \<le> Suc n \<and> (u, v) \<in> (set es) ^^ k}"
    proof cases
      case 1
      then obtain u where "u \<in> set front" "(u, v) \<in> set es" using nxt by auto
      then have "(u, v) \<in> (set es) ^^ 1" by simp
      with \<open>u \<in> set front\<close> show ?thesis by (intro CollectI bexI[of _ u] exI[of _ 1]) auto
    next
      case 2
      then obtain w k where w: "w \<in> set ?nxt" and k: "0 < k" "k \<le> n" "(w, v) \<in> (set es) ^^ k"
        unfolding IH[of ?nxt] by blast
      from w obtain u where u: "u \<in> set front" "(u, w) \<in> set es" using nxt by auto
      have "(u, v) \<in> (set es) ^^ Suc k" using u(2) k(3) by (rule relpow_Suc_I2)
      with u(1) k show ?thesis by (intro CollectI bexI[of _ u] exI[of _ "Suc k"]) auto
    qed
  next
    fix v
    assume "v \<in> {v. \<exists>u \<in> set front. \<exists>k. 0 < k \<and> k \<le> Suc n \<and> (u, v) \<in> (set es) ^^ k}"
    then obtain u k where u: "u \<in> set front" and k: "0 < k" "k \<le> Suc n" "(u, v) \<in> (set es) ^^ k"
      by auto
    from k(1) obtain j where j: "k = Suc j" by (cases k) auto
    from k(3) have "(u, v) \<in> (set es) ^^ Suc j" unfolding j .
    then have "\<exists>w. (u, w) \<in> set es \<and> (w, v) \<in> (set es) ^^ j"
      by (rule relpow_Suc_D2)
    then obtain w where w: "(u, w) \<in> set es" "(w, v) \<in> (set es) ^^ j"
      by (elim exE conjE)
    have wn: "w \<in> set ?nxt" using u w(1) nxt by auto
    show "v \<in> set (reachable_from es (Suc n) front)"
    proof (cases j)
      case 0
      with w(2) have "w = v" by simp
      with wn show ?thesis by (simp add: Let_def)
    next
      case (Suc i)
      have "0 < j" "j \<le> n" using Suc j k(2) by auto
      with w(2) wn have "v \<in> {v. \<exists>u \<in> set ?nxt. \<exists>k. 0 < k \<and> k \<le> n \<and> (u, v) \<in> (set es) ^^ k}"
        by blast
      then have "v \<in> set (reachable_from es n ?nxt)"
        by (simp only: IH[of ?nxt])
      then show ?thesis by (simp add: Let_def)
    qed
  qed
qed

lemma self_reach_iff:
  "u \<in> set (reachable_from es (length es) [u]) \<longleftrightarrow> (u, u) \<in> (set es)\<^sup>+"
proof
  assume "u \<in> set (reachable_from es (length es) [u])"
  then obtain k where "0 < k" "(u, u) \<in> (set es) ^^ k"
    by (auto simp: reachable_from_set)
  then show "(u, u) \<in> (set es)\<^sup>+" by (auto simp: trancl_power)
next
  assume "(u, u) \<in> (set es)\<^sup>+"
  then obtain k where k: "0 < k" "k \<le> card (set es)" "(u, u) \<in> (set es) ^^ k"
    by (auto simp: trancl_finite_eq_relpow)
  have "card (set es) \<le> length es" by (rule card_length)
  with k show "u \<in> set (reachable_from es (length es) [u])"
    by (auto simp: reachable_from_set intro!: exI[of _ k])
qed

lemma acyclic_code_list: "acyclic (set es) \<longleftrightarrow> \<not> cyclic_list es"
proof -
  have "(\<exists>x. (x, x) \<in> (set es)\<^sup>+) \<longleftrightarrow> (\<exists>x \<in> fst ` set es. (x, x) \<in> (set es)\<^sup>+)"
  proof
    assume "\<exists>x. (x, x) \<in> (set es)\<^sup>+"
    then obtain x where x: "(x, x) \<in> (set es)\<^sup>+" by blast
    then have "x \<in> Domain ((set es)\<^sup>+)" by blast
    then have "x \<in> Domain (set es)" by (simp only: trancl_domain)
    then have "x \<in> fst ` set es" by (simp add: Domain_fst)
    with x show "\<exists>x \<in> fst ` set es. (x, x) \<in> (set es)\<^sup>+" by blast
  qed blast
  then have "(\<exists>x. (x, x) \<in> (set es)\<^sup>+) \<longleftrightarrow> cyclic_list es"
    by (simp add: cyclic_list_def list_ex_iff self_reach_iff)
  moreover have "acyclic (set es) \<longleftrightarrow> \<not> (\<exists>x. (x, x) \<in> (set es)\<^sup>+)"
    by (simp add: acyclic_def)
  ultimately show ?thesis by (simp only:)
qed

lemma is_dag_code: "is_directed_acyclic_graph g \<longleftrightarrow> \<not> cyclic_list (arcs g)"
  by (simp add: is_directed_acyclic_graph_def acyclic_code_list)

subsection \<open>The greedy loop\<close>

lemma edgesG_add_node: "edgesG (add_node g n) = edgesG g"
  by (simp add: add_node_def)

lemma arcs_add_node: "arcs (add_node g n) = arcs g"
  by (simp add: arcs_def edgesG_add_node)

lemma set_arcs_add_edge: "set (arcs (add_edge g u v w)) = insert (u, v) (set (arcs g))"
proof (cases "(u, v) \<in> set (arcs g)")
  case True
  have "map (\<lambda>e. (fst e, fst (snd e)))
          (map (\<lambda>e. if fst e = u \<and> fst (snd e) = v then (u, v, w) else e) (edgesG g))
        = map (\<lambda>e. (fst e, fst (snd e))) (edgesG g)"
    by (induction "edgesG g") auto
  then have "arcs (add_edge g u v w) = arcs g"
    using True by (simp add: add_edge_def Let_def arcs_def edgesG_add_node)
  with True show ?thesis by auto
next
  case False
  then show ?thesis by (simp add: add_edge_def Let_def arcs_def edgesG_add_node)
qed

lemma set_arcs_remove_edge: "set (arcs (remove_edge g u v)) = set (arcs g) - {(u, v)}"
  by (auto simp: remove_edge_def arcs_def)

lemma greedyStep_cases:
  assumes "greedyStep th cf mx (st, loc) (d, src, snk) = Inr (st', loc')"
  shows "mcTree st' = mcTree st \<and> dm st' = dm st \<and> dmDirected st' = dmDirected st
         \<and> root_node st' = root_node st \<and>
       ((dag st' = dag st \<and> ogMap st' = ogMap st)
        \<or> (dag st' = remove_edge (add_edge (dag st) src snk d) src snk
            \<and> \<not> is_directed_acyclic_graph (add_edge (dag st) src snk d) \<and> ogMap st' = ogMap st)
        \<or> (dag st' = add_edge (dag st) src snk d
            \<and> is_directed_acyclic_graph (add_edge (dag st) src snk d)
            \<and> \<not> onSamePath st src snk
            \<and> (ogMap st' = (ogMap st)(getName (mcTree st) src \<mapsto> entries st (getName (mcTree st) src))
               \<or> (ogMap st' = (ogMap st)(getName (mcTree st) src \<mapsto>
                                 entries st (getName (mcTree st) src) @ [(getName (mcTree st) snk, d)])
                  \<and> (case ogMap st (getName (mcTree st) src) of
                        None \<Rightarrow> True | Some l \<Rightarrow> int (length l) < mx)))))"
  using assms
  by (auto simp: greedyStep_def Let_def entries_def
           split: sum.splits if_splits option.splits bool.splits)

lemma greedyLoop_invariant:
  assumes "greedyLoop th cf mx s cs = Inr s'" and "P s"
    and "\<And>a c b. P a \<Longrightarrow> c \<in> set cs \<Longrightarrow> greedyStep th cf mx a c = Inr b \<Longrightarrow> P b"
  shows "P s'"
  using assms
proof (induction cs arbitrary: s)
  case Nil
  then show ?case by simp
next
  case (Cons c cs)
  from Cons.prems(1) obtain m where m: "greedyStep th cf mx s c = Inr m"
    and rest: "greedyLoop th cf mx m cs = Inr s'"
    by (auto split: sum.splits)
  have "P m" by (rule Cons.prems(3)[OF Cons.prems(2) _ m]) simp
  show ?case
    by (rule Cons.IH[OF rest \<open>P m\<close>]) (rule Cons.prems(3), simp_all)
qed

lemma greedyStep_acyclic:
  assumes "greedyStep th cf mx a c = Inr b" and "is_directed_acyclic_graph (dag (fst a))"
  shows "is_directed_acyclic_graph (dag (fst b))"
proof -
  obtain st loc where a: "a = (st, loc)" by (cases a)
  obtain d src snk where c: "c = (d, src, snk)" by (cases c)
  obtain st' loc' where b: "b = (st', loc')" by (cases b)
  from greedyStep_cases[OF assms(1)[unfolded a b c]]
  consider "dag st' = dag st"
    | "dag st' = remove_edge (add_edge (dag st) src snk d) src snk"
    | "dag st' = add_edge (dag st) src snk d" "is_directed_acyclic_graph (add_edge (dag st) src snk d)"
    by blast
  then show ?thesis
  proof cases
    case 1
    then show ?thesis using assms(2) a b by simp
  next
    case 2
    have "set (arcs (dag st')) \<subseteq> set (arcs (dag st))"
      by (auto simp: 2 set_arcs_remove_edge set_arcs_add_edge)
    then show ?thesis using assms(2) a b
      by (auto simp: is_directed_acyclic_graph_def intro: acyclic_subset)
  next
    case 3
    then show ?thesis using b by simp
  qed
qed

lemma greedyLoop_acyclic:
  assumes "greedyLoop th cf mx s cs = Inr s'" and "is_directed_acyclic_graph (dag (fst s))"
  shows "is_directed_acyclic_graph (dag (fst s'))"
  by (rule greedyLoop_invariant[OF assms(1), where P = "\<lambda>x. is_directed_acyclic_graph (dag (fst x))"])
     (use assms(2) greedyStep_acyclic in auto)

lemma greedyStep_entries:
  assumes "greedyStep th cf mx (st, loc) (d, src, snk) = Inr (st', loc')"
  shows "(\<exists>new. entries st' nm = entries st nm @ new)
       \<and> int (length (entries st' nm)) \<le> max (int (length (entries st nm))) (max mx 1)"
  using greedyStep_cases[OF assms]
  by (auto simp: entries_def split: option.splits if_splits)

lemma extends_refl: "extends st mx nm st"
  by (simp add: extends_def)

lemma extends_trans: "extends a mx nm b \<Longrightarrow> extends b mx nm c \<Longrightarrow> extends a mx nm c"
  by (auto simp: extends_def)

lemma greedyLoop_extends:
  assumes "greedyLoop th cf mx s cs = Inr s'"
  shows "extends (fst s) mx nm (fst s')"
proof (rule greedyLoop_invariant[OF assms, where P = "\<lambda>x. extends (fst s) mx nm (fst x)"])
  show "extends (fst s) mx nm (fst s)" by (rule extends_refl)
next
  fix a c b
  assume a: "extends (fst s) mx nm (fst a)" and step: "greedyStep th cf mx a c = Inr b"
  obtain st loc where [simp]: "a = (st, loc)" by (cases a)
  obtain d src snk where [simp]: "c = (d, src, snk)" by (cases c)
  obtain st' loc' where [simp]: "b = (st', loc')" by (cases b)
  have "extends st mx nm st'"
    using greedyStep_entries[of th cf mx st loc d src snk st' loc' nm] step
    by (simp add: extends_def)
  with a show "extends (fst s) mx nm (fst b)" by (auto intro: extends_trans)
qed

lemma greedy_result:
  assumes "greedy st th cs cf mx = Inr st'"
  obtains h s where "greedyLoop th cf mx (st, initialLocals cs h) (orderedPairs st) = Inr s"
    and "st' = (fst s)\<lparr>ogMap := (\<lambda>n. map_option (sort_key snd) (ogMap (fst s) n))\<rparr>"
  using assms by (auto simp: greedy_def split: sum.splits)

lemma entries_sorted_map:
  "entries (s\<lparr>ogMap := (\<lambda>n. map_option (sort_key snd) (ogMap s n))\<rparr>) nm = sort_key snd (entries s nm)"
  by (simp add: entries_def split: option.splits)

subsection \<open>Distance tables and self pairs\<close>

lemma dijkstra_loop_keeps:
  "dijkstra_loop g dists seen fringe = Inr r \<Longrightarrow> map_of dists x \<noteq> None \<Longrightarrow> map_of r x \<noteq> None"
proof (induction g dists seen fringe rule: dijkstra_loop.induct)
  case (1 g dists seen)
  then show ?case by simp
next
  case (2 g dists seen dv fringe)
  show ?case
  proof (cases "map_of dists (snd dv) \<noteq> None")
    case True
    with "2.prems" "2.IH"(1) show ?thesis by simp
  next
    case False
    with "2.prems"(1) obtain sf where
      sf: "relax_neighbours (fst dv) (dists @ [(snd dv, fst dv)]) (successors g (snd dv)) (seen, fringe) = Inr sf"
      and r: "dijkstra_loop g (dists @ [(snd dv, fst dv)]) (fst sf) (snd sf) = Inr r"
      by (auto split: sum.splits)
    have "map_of (dists @ [(snd dv, fst dv)]) x \<noteq> None"
      using "2.prems"(2) by (auto simp: map_add_def split: option.splits)
    with "2.IH"(2)[OF _ sf r] False show ?thesis by simp
  qed
qed

lemma map_of_map_filter_keys:
  "map_of (List.map_filter (\<lambda>m. map_option (Pair m) (d m)) ns) k = (if k \<in> set ns then d k else None)"
  by (induction ns) (auto simp: List.map_filter_simps split: option.splits)

lemma set_map_filter_keys:
  "e \<in> set (List.map_filter (\<lambda>m. map_option (Pair m) (d m)) ns) \<Longrightarrow> fst e \<in> set ns"
  by (induction ns) (auto simp: List.map_filter_simps split: option.splits)

lemma single_source_self:
  assumes "single_source_dijkstra_path_length g s = Inr row" and "s \<in> set (nodesG g)"
  shows "map_of row s \<noteq> None"
proof -
  from assms(1) obtain r where r: "dijkstra_loop g [] [(s, 0)] [(0, s)] = Inr r"
    and row: "row = List.map_filter (\<lambda>m. map_option (Pair m) (map_of r m)) (nodesG g)"
    by (auto simp: single_source_dijkstra_path_length_def split: sum.splits)
  from r obtain sf where
    "dijkstra_loop g [(s, 0)] (fst sf) (snd sf) = Inr r"
    by (auto split: sum.splits)
  from dijkstra_loop_keeps[OF this, of s] have "map_of r s \<noteq> None" by simp
  with assms(2) show ?thesis by (simp add: row map_of_map_filter_keys)
qed

lemma single_source_keys:
  assumes "single_source_dijkstra_path_length g s = Inr row" and "e \<in> set row"
  shows "fst e \<in> set (nodesG g)"
  using assms
  by (auto simp: single_source_dijkstra_path_length_def split: sum.splits dest: set_map_filter_keys)

lemma all_sources_rows:
  "all_sources g ns = Inr tb \<Longrightarrow>
     map fst tb = ns \<and> (\<forall>p \<in> set tb. single_source_dijkstra_path_length g (fst p) = Inr (snd p))"
proof (induction ns arbitrary: tb)
  case Nil
  then show ?case by simp
next
  case (Cons n ns)
  from Cons.prems obtain row rows where
    "single_source_dijkstra_path_length g n = Inr row" "all_sources g ns = Inr rows"
    "tb = (n, row) # rows"
    by (auto split: sum.splits)
  with Cons.IH[of rows] show ?case by auto
qed

lemma all_sources_map_of:
  "all_sources g ns = Inr tb \<Longrightarrow> n \<in> set ns \<Longrightarrow>
     \<exists>row. map_of tb n = Some row \<and> single_source_dijkstra_path_length g n = Inr row"
proof (induction ns arbitrary: tb)
  case Nil
  then show ?case by simp
next
  case (Cons m ns)
  from Cons.prems(1) obtain row rows where
    row: "single_source_dijkstra_path_length g m = Inr row" and rows: "all_sources g ns = Inr rows"
    and tb: "tb = (m, row) # rows"
    by (auto split: sum.splits)
  show ?case
  proof (cases "n = m")
    case True
    with row tb show ?thesis by simp
  next
    case False
    with Cons.prems(2) have "n \<in> set ns" by simp
    from Cons.IH[OF rows this] False tb show ?thesis by simp
  qed
qed

lemma table_has_self:
  assumes "all_pairs_dijkstra_path_length g = Inr tb" and "n \<in> set (nodesG g)"
  shows "table_has tb n n"
proof -
  from assms(1) have "all_sources g (nodesG g) = Inr tb"
    by (simp add: all_pairs_dijkstra_path_length_def)
  from all_sources_map_of[OF this assms(2)]
  obtain row where row: "map_of tb n = Some row"
    and s: "single_source_dijkstra_path_length g n = Inr row"
    by blast
  from single_source_self[OF s assms(2)] row show ?thesis by (simp add: table_has_def)
qed

lemma all_pairs_nodes:
  assumes "all_pairs_dijkstra_path_length g = Inr tb" and "row \<in> set tb" and "ent \<in> set (snd row)"
  shows "fst row \<in> set (nodesG g) \<and> fst ent \<in> set (nodesG g)"
proof -
  from assms(1) have "all_sources g (nodesG g) = Inr tb"
    by (simp add: all_pairs_dijkstra_path_length_def)
  from all_sources_rows[OF this]
  have m: "map fst tb = nodesG g"
    and s: "\<forall>p \<in> set tb. single_source_dijkstra_path_length g (fst p) = Inr (snd p)"
    by simp_all
  from assms(2) have "fst row \<in> set (map fst tb)" by simp
  with m have 1: "fst row \<in> set (nodesG g)" by simp
  from s assms(2) have "single_source_dijkstra_path_length g (fst row) = Inr (snd row)" by blast
  from single_source_keys[OF this assms(3)] have "fst ent \<in> set (nodesG g)" .
  with 1 show ?thesis by simp
qed

lemma nodesG_to_undirected: "nodesG (to_undirected g) = nodesG g"
  by (simp add: to_undirected_def)

lemma orderedPairs_nodes:
  assumes "tablesOf g st" and "c \<in> set (orderedPairs st)"
  shows "fst (snd c) \<in> set (nodesG g) \<and> snd (snd c) \<in> set (nodesG g)"
proof -
  from assms(2) obtain row ent where r: "row \<in> set (dm st)" "ent \<in> set (snd row)"
    and c: "c = (snd ent, fst row, fst ent)"
    by (auto simp: orderedPairs_def)
  from assms(1) have "all_pairs_dijkstra_path_length (to_undirected g) = Inr (dm st)"
    by (simp add: tablesOf_def)
  from all_pairs_nodes[OF this r] c show ?thesis
    by (simp add: nodesG_to_undirected)
qed

lemma onSamePath_self:
  assumes "tablesOf g st" and "n \<in> set (nodesG g)"
  shows "onSamePath st n n"
proof -
  from assms(1) have "all_pairs_dijkstra_path_length g = Inr (dmDirected st)"
    by (simp add: tablesOf_def)
  from table_has_self[OF this assms(2)] show ?thesis by (simp add: onSamePath_def)
qed

lemma greedyStep_noSelf:
  assumes step: "greedyStep th cf mx (st, loc) (d, src, snk) = Inr (st', loc')"
    and tab: "tablesOf g st"
    and inj: "inj_on (getName (mcTree st)) (set (nodesG g))"
    and nodes: "src \<in> set (nodesG g)" "snk \<in> set (nodesG g)"
    and ns: "noSelfOutgroup st"
  shows "noSelfOutgroup st' \<and> tablesOf g st' \<and> mcTree st' = mcTree st"
proof -
  note cs = greedyStep_cases[OF step]
  have fixed: "tablesOf g st'" "mcTree st' = mcTree st"
    using cs tab by (auto simp: tablesOf_def)
  have neq: "\<not> onSamePath st src snk \<Longrightarrow> getName (mcTree st) snk \<noteq> getName (mcTree st) src"
  proof
    assume a: "\<not> onSamePath st src snk" and b: "getName (mcTree st) snk = getName (mcTree st) src"
    from inj nodes b have "snk = src" by (auto dest: inj_onD)
    with a onSamePath_self[OF tab nodes(1)] show False by simp
  qed
  have "noSelfOutgroup st'"
    unfolding noSelfOutgroup_def
  proof
    fix nm
    from ns have old: "nm \<notin> fst ` set (entries st nm)" by (simp add: noSelfOutgroup_def)
    from cs have "entries st' nm = entries st nm
        \<or> (\<not> onSamePath st src snk \<and> nm = getName (mcTree st) src
            \<and> entries st' nm = entries st nm @ [(getName (mcTree st) snk, d)])"
      by (cases "nm = getName (mcTree st) src") (auto simp: entries_def)
    then show "nm \<notin> fst ` set (entries st' nm)"
    proof
      assume "entries st' nm = entries st nm"
      with old show ?thesis by simp
    next
      assume a: "\<not> onSamePath st src snk \<and> nm = getName (mcTree st) src
            \<and> entries st' nm = entries st nm @ [(getName (mcTree st) snk, d)]"
      with neq have "getName (mcTree st) snk \<noteq> nm" by simp
      with a old show ?thesis by auto
    qed
  qed
  with fixed show ?thesis by simp
qed

lemma importTree_tables:
  assumes "importTree t = Inr st"
  shows "tablesOf (dag st) st \<and> ogMap st = Map.empty \<and> mcTree st = t \<and> root_node st = rootId t"
  using assms
  by (auto simp: importTree_def tablesOf_def simp del: stripNonEvents.simps split: sum.splits)

subsection \<open>\<open>importTree\<close> and the shape of the input\<close>

lemma stripNonEvents_root:
  assumes "i \<in> set (nodesG g)" and "i \<notin> snd ` set (arcs g)"
    and "i \<in> roots \<or> i \<notin> fst ` set (arcs g)"
  shows "stripNonEvents g i roots = Inr g"
proof -
  have ie: "in_edges g i = Inr []"
    using assms(1,2) by (auto simp: in_edges_def filter_empty_conv)
  have oe: "i \<notin> roots \<Longrightarrow> out_edges g i = Inr []"
    using assms(1,3) by (auto simp: out_edges_def filter_empty_conv)
  show ?thesis
  proof (cases "i \<in> roots")
    case True
    then show ?thesis using ie assms(1) by (simp add: out_edges_def)
  next
    case False
    then show ?thesis using ie oe by simp
  qed
qed

subsection \<open>The tables of a graph without negative lengths\<close>

text \<open>
  With no negative weight the distances are fixed in ascending order, so no path to a finished
  node is shorter than its distance: the computation raises nothing, for the directed graph and
  for the undirected one.
\<close>

lemma set_heappush: "set (heappush e xs) = insert e (set xs)"
  by (induction xs) auto

lemma sorted_heappush:
  "sorted (map fst xs) \<Longrightarrow> sorted (map fst (heappush e xs))"
  by (induction xs) (auto simp: set_heappush)

lemma relax_neighbours_ok:
  assumes "\<forall>uc \<in> set ns. 0 \<le> snd uc"
    and "\<forall>x \<in> set dists. snd x \<le> d"
    and "sorted (map fst (snd sf))"
    and "\<forall>y \<in> set (snd sf). d \<le> fst y"
  shows "\<exists>sf'. relax_neighbours d dists ns sf = Inr sf'
           \<and> sorted (map fst (snd sf')) \<and> (\<forall>y \<in> set (snd sf'). d \<le> fst y)"
  using assms
proof (induction ns arbitrary: sf)
  case Nil
  then show ?case by simp
next
  case (Cons uc rest)
  have c: "0 \<le> snd uc" using Cons.prems(1) by simp
  have rest: "\<forall>uc \<in> set rest. 0 \<le> snd uc" using Cons.prems(1) by simp
  let ?sf2 = "(AList.update (fst uc) (d + snd uc) (fst sf), heappush (d + snd uc, fst uc) (snd sf))"
  have sf2: "sorted (map fst (snd ?sf2))" "\<forall>y \<in> set (snd ?sf2). d \<le> fst y"
    using Cons.prems(3,4) c by (auto simp: sorted_heappush set_heappush)
  note IH1 = Cons.IH[OF rest Cons.prems(2) Cons.prems(3) Cons.prems(4)]
  note IH2 = Cons.IH[OF rest Cons.prems(2) sf2]
  show ?case
  proof (cases "map_of dists (fst uc)")
    case (Some du)
    then have "(fst uc, du) \<in> set dists" by (rule map_of_SomeD)
    with Cons.prems(2) have "du \<le> d" by auto
    with c have "\<not> d + snd uc < du" by simp
    with Some IH1 show ?thesis by simp
  next
    case None
    show ?thesis
    proof (cases "map_of (fst sf) (fst uc)")
      case n2: None
      with None IH2 show ?thesis by simp
    next
      case (Some su)
      with None IH1 IH2 show ?thesis by simp
    qed
  qed
qed

lemma dijkstra_loop_ok:
  assumes "\<forall>e \<in> set (edgesG g). 0 \<le> snd (snd e)"
    and "sorted (map fst fringe)"
    and "\<forall>x \<in> set dists. \<forall>y \<in> set fringe. snd x \<le> fst y"
  shows "\<exists>r. dijkstra_loop g dists seen fringe = Inr r"
  using assms
proof (induction g dists seen fringe rule: dijkstra_loop.induct)
  case (1 g dists seen)
  then show ?case by simp
next
  case (2 g dists seen dv fringe)
  have sorted_tl: "sorted (map fst fringe)" using "2.prems"(2) by simp
  have ge: "\<forall>y \<in> set fringe. fst dv \<le> fst y" using "2.prems"(2) by auto
  show ?case
  proof (cases "map_of dists (snd dv) \<noteq> None")
    case True
    have "\<exists>r. dijkstra_loop g dists seen fringe = Inr r"
      using "2.IH"(1)[OF True "2.prems"(1) sorted_tl] "2.prems"(3) by simp
    with True show ?thesis by simp
  next
    case False
    let ?d = "dists @ [(snd dv, fst dv)]"
    have nonneg: "\<forall>uc \<in> set (successors g (snd dv)). 0 \<le> snd uc"
      using "2.prems"(1) by (auto simp: successors_def)
    have le: "\<forall>x \<in> set ?d. snd x \<le> fst dv"
      using "2.prems"(3) by auto
    from relax_neighbours_ok[OF nonneg le, of "(seen, fringe)"] sorted_tl ge
    obtain sf where sf: "relax_neighbours (fst dv) ?d (successors g (snd dv)) (seen, fringe) = Inr sf"
      and s2: "sorted (map fst (snd sf))" and g2: "\<forall>y \<in> set (snd sf). fst dv \<le> fst y"
      by auto
    have inv: "\<forall>x \<in> set ?d. \<forall>y \<in> set (snd sf). snd x \<le> fst y"
      using le g2 by fastforce
    from "2.IH"(2)[OF _ sf "2.prems"(1) s2 inv] False
    have "\<exists>r. dijkstra_loop g ?d (fst sf) (snd sf) = Inr r" by simp
    with False sf show ?thesis by simp
  qed
qed

lemma single_source_ok:
  assumes "\<forall>e \<in> set (edgesG g). 0 \<le> snd (snd e)"
  shows "\<exists>row. single_source_dijkstra_path_length g s = Inr row"
proof -
  from dijkstra_loop_ok[OF assms, of "[(0, s)]" "[]" "[(s, 0)]"]
  obtain r where "dijkstra_loop g [] [(s, 0)] [(0, s)] = Inr r" by auto
  then show ?thesis by (simp add: single_source_dijkstra_path_length_def)
qed

lemma all_sources_ok:
  assumes "\<forall>e \<in> set (edgesG g). 0 \<le> snd (snd e)"
  shows "\<exists>tb. all_sources g ns = Inr tb"
proof (induction ns)
  case Nil
  show ?case by simp
next
  case (Cons n ns)
  from single_source_ok[OF assms, of n] Cons.IH show ?case by auto
qed

lemma all_pairs_ok:
  assumes "\<forall>e \<in> set (edgesG g). 0 \<le> snd (snd e)"
  shows "\<exists>tb. all_pairs_dijkstra_path_length g = Inr tb"
  using all_sources_ok[OF assms] by (simp add: all_pairs_dijkstra_path_length_def)

lemma put_edge_nonneg:
  "0 \<le> w \<Longrightarrow> \<forall>e \<in> set es. 0 \<le> snd (snd e) \<Longrightarrow> \<forall>e \<in> set (put_edge es u v w). 0 \<le> snd (snd e)"
  by (auto simp: put_edge_def)

lemma foldl_put_nonneg:
  "\<forall>e \<in> set acc. 0 \<le> snd (snd e) \<Longrightarrow> \<forall>e \<in> set xs. 0 \<le> snd (snd e) \<Longrightarrow>
   \<forall>e \<in> set (foldl (\<lambda>es e. put_edge (put_edge es (fst e) (fst (snd e)) (snd (snd e)))
                                 (fst (snd e)) (fst e) (snd (snd e))) acc xs). 0 \<le> snd (snd e)"
proof (induction xs arbitrary: acc)
  case Nil
  then show ?case by simp
next
  case (Cons x xs)
  have w: "0 \<le> snd (snd x)" using Cons.prems(2) by simp
  have "\<forall>e \<in> set (put_edge acc (fst x) (fst (snd x)) (snd (snd x))). 0 \<le> snd (snd e)"
    using w Cons.prems(1) by (rule put_edge_nonneg)
  with w have "\<forall>e \<in> set (put_edge (put_edge acc (fst x) (fst (snd x)) (snd (snd x)))
                                 (fst (snd x)) (fst x) (snd (snd x))). 0 \<le> snd (snd e)"
    by (rule put_edge_nonneg)
  moreover have "\<forall>e \<in> set xs. 0 \<le> snd (snd e)" using Cons.prems(2) by simp
  ultimately show ?case using Cons.IH by simp
qed

lemma to_undirected_nonneg:
  assumes "\<forall>e \<in> set (edgesG g). 0 \<le> snd (snd e)"
  shows "\<forall>e \<in> set (edgesG (to_undirected g)). 0 \<le> snd (snd e)"
proof -
  have "\<forall>e \<in> set (concat (map (\<lambda>n. filter (\<lambda>e. fst e = n) (edgesG g)) (nodesG g))). 0 \<le> snd (snd e)"
    using assms by auto
  from foldl_put_nonneg[OF _ this, of "[]"] show ?thesis
    by (simp add: to_undirected_def)
qed

subsection \<open>\<open>compute\<close> and the map it finds\<close>

lemma computeNode_map:
  assumes "computeNode working s n = Inr s'"
  shows "mcTree s' = mcTree s
       \<and> (ogMap s' = ogMap s
          \<or> (\<not> isLeaf (mcTree s) n \<and> (\<exists>sol. ogMap s' = (ogMap s)(getName (mcTree s) n \<mapsto> sol))))"
  using assms
  by (auto simp: computeNode_def Let_def split: if_splits sum.splits option.splits)

lemma computeLoop_map:
  assumes "computeLoop working s ns = Inr s'"
  shows "mcTree s' = mcTree s
       \<and> (\<forall>nm. ogMap s' nm = ogMap s nm
                \<or> (\<exists>n \<in> set ns. \<not> isLeaf (mcTree s) n \<and> getName (mcTree s) n = nm))"
  using assms
proof (induction ns arbitrary: s)
  case Nil
  then show ?case by simp
next
  case (Cons n ns)
  from Cons.prems obtain m where m: "computeNode working s n = Inr m"
    and rest: "computeLoop working m ns = Inr s'"
    by (auto split: sum.splits)
  note a = computeNode_map[OF m]
  note b = Cons.IH[OF rest]
  show ?case
  proof (intro conjI allI)
    show "mcTree s' = mcTree s" using a b by simp
  next
    fix nm
    from b have "ogMap s' nm = ogMap m nm
        \<or> (\<exists>k \<in> set ns. \<not> isLeaf (mcTree s) k \<and> getName (mcTree s) k = nm)"
      using a by simp
    moreover from a have "ogMap m nm = ogMap s nm
        \<or> (\<not> isLeaf (mcTree s) n \<and> getName (mcTree s) n = nm)"
      by (auto split: if_splits)
    ultimately show "ogMap s' nm = ogMap s nm
        \<or> (\<exists>k \<in> set (n # ns). \<not> isLeaf (mcTree s) k \<and> getName (mcTree s) k = nm)"
      by auto
  qed
qed

subsection \<open>The examples, evaluated\<close>

lemmas graph_eval = out_edges_def in_edges_def arcs_def add_edge_def add_node_def remove_edge_def
  remove_node_def to_undirected_def put_edge_def

lemmas dijkstra_eval = all_pairs_dijkstra_path_length_def single_source_dijkstra_path_length_def
  successors_def List.map_filter_def

lemma exTables:
  "all_pairs_dijkstra_path_length (to_undirected exGraph) = Inr (dm exState)"
  "all_pairs_dijkstra_path_length exGraph = Inr (dmDirected exState)"
  by (simp_all add: exState_def exGraph_def to_undirected_def put_edge_def dijkstra_eval)

lemma cxTables:
  "all_pairs_dijkstra_path_length (to_undirected cxGraph) = Inr (dm cxState)"
  "all_pairs_dijkstra_path_length cxGraph = Inr (dmDirected cxState)"
  by (simp_all add: cxState_def cxGraph_def to_undirected_def put_edge_def dijkstra_eval)

lemma exRoot:
  "rootId exTree \<in> set (nodesG (nxDg exTree))"
  "rootId exTree \<notin> snd ` set (arcs (nxDg exTree))"
  "rootId exTree \<in> subtreeRoots exTree"
  by (simp_all add: exTree_def exGraph_def arcs_def)

lemma cxRoot:
  "rootId cxTree \<in> set (nodesG (nxDg cxTree))"
  "rootId cxTree \<notin> snd ` set (arcs (nxDg cxTree))"
  "rootId cxTree \<in> subtreeRoots cxTree"
  by (simp_all add: cxTree_def cxGraph_def arcs_def)

lemma exImport: "importTree exTree = Inr exState"
proof -
  have "stripNonEvents (nxDg exTree) (rootId exTree) (subtreeRoots exTree) = Inr (nxDg exTree)"
    using exRoot by (intro stripNonEvents_root) auto
  moreover have "nxDg exTree = exGraph" "rootId exTree = 0" by (simp_all add: exTree_def)
  ultimately show ?thesis
    using exTables by (simp add: importTree_def exState_def del: stripNonEvents.simps)
qed

lemma cxImport: "importTree cxTree = Inr cxState"
proof -
  have "stripNonEvents (nxDg cxTree) (rootId cxTree) (subtreeRoots cxTree) = Inr (nxDg cxTree)"
    using cxRoot by (intro stripNonEvents_root) auto
  moreover have "nxDg cxTree = cxGraph" "rootId cxTree = 0" by (simp_all add: cxTree_def)
  ultimately show ?thesis
    using cxTables by (simp add: importTree_def cxState_def del: stripNonEvents.simps)
qed

lemma case_sum_ex: "(case r of Inl e \<Rightarrow> False | Inr x \<Rightarrow> P x) \<Longrightarrow> \<exists>x. r = Inr x \<and> P x"
  by (cases r) auto

lemma exDag: "is_directed_acyclic_graph (dag exState)"
  by code_simp

lemma exRun:
  "(case greedy exState None None 2 1 of Inl e \<Rightarrow> False | Inr r \<Rightarrow>
       entries r ''X'' = [(''C'', 2)] \<and> arcs (dag r) = arcs exGraph @ [(1, 4)])"
  by code_simp

lemma exPrefix:
  "(case heightTable 6 (dag exState) 0 Map.empty of Inl e \<Rightarrow> False | Inr h \<Rightarrow>
      (case greedyLoop None 2 1 (exState, initialLocals None h) (take 9 (orderedPairs exState)) of
         Inl e \<Rightarrow> False | Inr s \<Rightarrow> arcs (dag (fst s)) = arcs exGraph @ [(1, 4)]))"
  by code_simp

lemma cxCycle:
  "(case heightTable 7 (dag cxState) 0 Map.empty of Inl e \<Rightarrow> False | Inr h \<Rightarrow>
      (case greedyLoop None 2 1 (cxState, initialLocals (Some cxCands) h) (take 12 (orderedPairs cxState)) of
         Inl e \<Rightarrow> False
       | Inr s \<Rightarrow>
           (case greedyStep None 2 1 s (2, 3, 1) of
              Inl e \<Rightarrow> False
            | Inr t \<Rightarrow> is_directed_acyclic_graph (dag (fst s))
                      \<and> \<not> is_directed_acyclic_graph (add_edge (dag (fst s)) 3 1 2)
                      \<and> arcs (dag (fst s)) = arcs cxGraph @ [(1, 3)]
                      \<and> arcs (dag (fst t)) = arcs cxGraph @ [(1, 3)])))"
  by code_simp

lemma exZeroTwice:
  "(case greedy exState None None 2 0 of
      Inl e \<Rightarrow> False
    | Inr r \<Rightarrow>
        (case greedy r None None 2 0 of
           Inl e \<Rightarrow> False
         | Inr r' \<Rightarrow> entries r ''X'' = [(''C'', 2)] \<and> entries r' ''X'' = [(''C'', 2)]
                     \<and> \<not> int (length (entries r' ''X'')) \<le> 0))"
  by code_simp

lemma cxRerun:
  "(case greedy cxState None None 2 1 of
      Inl e \<Rightarrow> False
    | Inr r \<Rightarrow>
        (case greedy r None None 2 2 of
           Inl e \<Rightarrow> False
         | Inr r' \<Rightarrow> entries r ''X'' = [(''Y'', 2)] \<and> entries r' ''X'' = [(''Y'', 2), (''W'', 3)]))"
  by code_simp

lemma cxTotals:
  "greedyTotal cxState (map cxName [0, 1, 2, 3, 4, 5]) (Some 0) (Some cxCands) 2 1 = Inr 2
   \<and> greedyTotal cxState (map cxName [0, 1, 2, 3, 4, 5]) (Some 2) (Some cxCands) 2 1 = Inr 1
   \<and> greedyTotal cxState (map cxName [0, 1, 2, 3, 4, 5]) None (Some cxCands) 2 1 = Inr 1"
  by code_simp

lemma strip_chain:
  "stripNonEvents chainGraph 0 {0} = Inr chainGraph
   \<and> out_edges chainGraph 1 = Inr [(1, 2)]
   \<and> stripNonEvents chainGraph 0 {} = Inl AssertionError
   \<and> stripNonEvents chainGraph 1 {0} = Inl TypeError"
  by (simp add: chainGraph_def graph_eval in_edges_subscript_def)

lemma island_tables:
  "all_pairs_dijkstra_path_length (to_undirected islandGraph) =
     Inr [(0, [(0, 0), (1, 1), (2, 2), (3, 2), (4, 1)]),
          (1, [(0, 1), (1, 0), (2, 1), (3, 1), (4, 2)]),
          (2, [(0, 2), (1, 1), (2, 0), (3, 2), (4, 3)]),
          (3, [(0, 2), (1, 1), (2, 2), (3, 0), (4, 3)]),
          (4, [(0, 1), (1, 2), (2, 3), (3, 3), (4, 0)]),
          (5, [(5, 0)])]"
  "all_pairs_dijkstra_path_length islandGraph =
     Inr [(0, [(0, 0), (1, 1), (2, 2), (3, 2), (4, 1)]),
          (1, [(1, 0), (2, 1), (3, 1)]), (2, [(2, 0)]), (3, [(3, 0)]), (4, [(4, 0)]),
          (5, [(5, 0)])]"
  by (simp_all add: islandGraph_def to_undirected_def put_edge_def dijkstra_eval)

text \<open>
  A negative branch length: the directed table is built, the undirected one is not. From the
  source 0 the node 2 is reached at distance 0 through node 1, and the way back from 2 to 1 is
  shorter than the distance 1 already fixed for node 1.
\<close>

lemma neg_tables:
  "all_pairs_dijkstra_path_length negGraph =
     Inr [(0, [(0, 0), (1, 1), (2, 0)]), (1, [(1, 0), (2, - 1)]), (2, [(2, 0)])]"
  "all_pairs_dijkstra_path_length (to_undirected negGraph) = Inl ValueError"
  by (simp_all add: negGraph_def to_undirected_def put_edge_def dijkstra_eval)

lemma importTree_negative_length: "importTree negTree = Inl ValueError"
proof -
  have "stripNonEvents (nxDg negTree) (rootId negTree) (subtreeRoots negTree) = Inr (nxDg negTree)"
    by (rule stripNonEvents_root) (simp_all add: negTree_def negGraph_def exTree_def arcs_def)
  moreover have "nxDg negTree = negGraph" by (simp add: negTree_def)
  ultimately show ?thesis
    using neg_tables by (simp add: importTree_def del: stripNonEvents.simps)
qed

lemma seq_eval:
  "(case importSequenceInfo exTree seqExample None Map.empty of
      Some (Inr info) \<Rightarrow>
        map info [2, 3, 1, 0] =
          [Some \<lparr>count = 1, totalLen = 1\<rparr>, Some \<lparr>count = 1, totalLen = 5\<rparr>,
           Some \<lparr>count = 1, totalLen = 5\<rparr>, Some \<lparr>count = 1, totalLen = 5\<rparr>]
    | _ \<Rightarrow> False)"
  by (simp add: seqExample_def exTree_def propagate.simps)

lemma dp_eval:
  "(case dpRun 1 [0 \<mapsto> 1 / 2, 4 \<mapsto> 1 / 2] dpExample (initTable 1 dpExample) of
      Inl e \<Rightarrow> False
    | Inr tab \<Rightarrow>
        tab 4 = Some [\<lparr>score = 0, solution = []\<rparr>, \<lparr>score = 1, solution = [4]\<rparr>]
        \<and> tab 0 = Some [\<lparr>score = 1, solution = []\<rparr>, \<lparr>score = 1, solution = [4]\<rparr>]
        \<and> tab 1 = Some [\<lparr>score = 1, solution = []\<rparr>, \<lparr>score = 1, solution = [4]\<rparr>])"
  by (simp add: dpExample_def initTable_def dpNode_def allocStep_def numeral_eq_Suc)

lemma dyn_eval:
  "(case compute exWorking dynExample of
      Inl e \<Rightarrow> False
    | Inr a \<Rightarrow> ogMap a ''root'' = Some [0] \<and> ogMap a ''X'' = Some [4] \<and> ogMap a ''C'' = None)"
  by (simp add: compute_def emptyMap_def computeNode_def dpInit_def computeBranchConservation_def
        initTable_def dpNode_def allocStep_def dynExample_def exWorking_def exTree_def exName_def
        exGraph_def numeral_eq_Suc Let_def)

section \<open>The claims\<close>

text \<open>
  Claim C1. For every run of the greedy assigner that starts from an acyclic graph, the graph
  of tree edges and outgroup edges is acyclic after the run and after every prefix of the
  sorted pairs; a pair whose edge would close a cycle leaves the outgroup map as it was, and the
  graph either untouched or with that edge added and removed again.
\<close>

theorem greedy_acyclic:
  assumes "is_directed_acyclic_graph (dag st)"
  shows "(greedy st threshold candidateSet cfrac maxN = Inr st'
            \<longrightarrow> is_directed_acyclic_graph (dag st'))
       \<and> (greedyLoop threshold cfrac maxN (st, loc) (take k cands) = Inr s
            \<longrightarrow> is_directed_acyclic_graph (dag (fst s)))
       \<and> (greedyStep threshold cfrac maxN (st, loc) (d, source, sink) = Inr t
            \<and> \<not> is_directed_acyclic_graph (add_edge (dag st) source sink d)
            \<longrightarrow> ogMap (fst t) = ogMap st
                \<and> (dag (fst t) = dag st
                    \<or> dag (fst t) = remove_edge (add_edge (dag st) source sink d) source sink))"
proof (intro conjI impI)
  assume "greedy st threshold candidateSet cfrac maxN = Inr st'"
  then obtain h s0 where "greedyLoop threshold cfrac maxN (st, initialLocals candidateSet h) (orderedPairs st) = Inr s0"
    and st': "st' = (fst s0)\<lparr>ogMap := (\<lambda>n. map_option (sort_key snd) (ogMap (fst s0) n))\<rparr>"
    by (auto simp: greedy_def split: sum.splits)
  from greedyLoop_acyclic[OF this(1)] assms show "is_directed_acyclic_graph (dag st')"
    by (simp add: st' is_directed_acyclic_graph_def arcs_def)
next
  assume "greedyLoop threshold cfrac maxN (st, loc) (take k cands) = Inr s"
  from greedyLoop_acyclic[OF this] assms show "is_directed_acyclic_graph (dag (fst s))" by simp
next
  assume h: "greedyStep threshold cfrac maxN (st, loc) (d, source, sink) = Inr t
       \<and> \<not> is_directed_acyclic_graph (add_edge (dag st) source sink d)"
  obtain st2 loc2 where t: "t = (st2, loc2)" by (cases t)
  from greedyStep_cases[of threshold cfrac maxN st loc d source sink st2 loc2] h t
  show "ogMap (fst t) = ogMap st" by auto
next
  assume h: "greedyStep threshold cfrac maxN (st, loc) (d, source, sink) = Inr t
       \<and> \<not> is_directed_acyclic_graph (add_edge (dag st) source sink d)"
  obtain st2 loc2 where t: "t = (st2, loc2)" by (cases t)
  from greedyStep_cases[of threshold cfrac maxN st loc d source sink st2 loc2] h t
  show "dag (fst t) = dag st
         \<or> dag (fst t) = remove_edge (add_edge (dag st) source sink d) source sink" by auto
qed

text \<open>
  The statement at concrete inputs: the run on the caterpillar, its first nine pairs, and on the
  two-branch tree the pair \<open>(Y, X)\<close> after \<open>X \<rightarrow> Y\<close> was assigned, which would close a cycle.
\<close>

theorem greedy_acyclic_witness:
  "is_directed_acyclic_graph (dag exState)
   \<and> (\<exists>r. greedy exState None None 2 1 = Inr r \<and> is_directed_acyclic_graph (dag r))
   \<and> (\<exists>h s. heightTable 6 (dag exState) 0 Map.empty = Inr h
         \<and> greedyLoop None 2 1 (exState, initialLocals None h) (take 9 (orderedPairs exState)) = Inr s
         \<and> is_directed_acyclic_graph (dag (fst s)))
   \<and> (\<exists>h s t. heightTable 7 (dag cxState) 0 Map.empty = Inr h
         \<and> greedyLoop None 2 1 (cxState, initialLocals (Some cxCands) h)
               (take 12 (orderedPairs cxState)) = Inr s
         \<and> is_directed_acyclic_graph (dag (fst s))
         \<and> greedyStep None 2 1 s (2, 3, 1) = Inr t
         \<and> \<not> is_directed_acyclic_graph (add_edge (dag (fst s)) 3 1 2)
         \<and> ogMap (fst t) = ogMap (fst s)
         \<and> (dag (fst t) = dag (fst s)
             \<or> dag (fst t) = remove_edge (add_edge (dag (fst s)) 3 1 2) 3 1))"
proof -
  from case_sum_ex[OF exRun] obtain r where r: "greedy exState None None 2 1 = Inr r" by blast
  have 1: "\<exists>r. greedy exState None None 2 1 = Inr r \<and> is_directed_acyclic_graph (dag r)"
    using greedy_acyclic[OF exDag, where threshold = None and candidateSet = None and cfrac = 2
        and maxN = 1 and st' = r] r by blast
  from case_sum_ex[OF exPrefix] obtain h where h: "heightTable 6 (dag exState) 0 Map.empty = Inr h"
    and "case greedyLoop None 2 1 (exState, initialLocals None h) (take 9 (orderedPairs exState)) of
           Inl e \<Rightarrow> False | Inr s \<Rightarrow> arcs (dag (fst s)) = arcs exGraph @ [(1, 4)]"
    by blast
  from case_sum_ex[OF this(2)] obtain s where
    s: "greedyLoop None 2 1 (exState, initialLocals None h) (take 9 (orderedPairs exState)) = Inr s"
    by blast
  have 2: "\<exists>h s. heightTable 6 (dag exState) 0 Map.empty = Inr h
         \<and> greedyLoop None 2 1 (exState, initialLocals None h) (take 9 (orderedPairs exState)) = Inr s
         \<and> is_directed_acyclic_graph (dag (fst s))"
    using greedy_acyclic[OF exDag, where threshold = None and cfrac = 2 and maxN = 1
        and loc = "initialLocals None h" and k = 9 and cands = "orderedPairs exState" and s = s]
      h s by blast
  from case_sum_ex[OF cxCycle] obtain h' where h': "heightTable 7 (dag cxState) 0 Map.empty = Inr h'"
    and "case greedyLoop None 2 1 (cxState, initialLocals (Some cxCands) h') (take 12 (orderedPairs cxState)) of
         Inl e \<Rightarrow> False
       | Inr s \<Rightarrow>
           (case greedyStep None 2 1 s (2, 3, 1) of
              Inl e \<Rightarrow> False
            | Inr t \<Rightarrow> is_directed_acyclic_graph (dag (fst s))
                      \<and> \<not> is_directed_acyclic_graph (add_edge (dag (fst s)) 3 1 2)
                      \<and> arcs (dag (fst s)) = arcs cxGraph @ [(1, 3)]
                      \<and> arcs (dag (fst t)) = arcs cxGraph @ [(1, 3)])"
    by blast
  from case_sum_ex[OF this(2)] obtain s' where
    s': "greedyLoop None 2 1 (cxState, initialLocals (Some cxCands) h') (take 12 (orderedPairs cxState)) = Inr s'"
    and "case greedyStep None 2 1 s' (2, 3, 1) of
              Inl e \<Rightarrow> False
            | Inr t \<Rightarrow> is_directed_acyclic_graph (dag (fst s'))
                      \<and> \<not> is_directed_acyclic_graph (add_edge (dag (fst s')) 3 1 2)
                      \<and> arcs (dag (fst s')) = arcs cxGraph @ [(1, 3)]
                      \<and> arcs (dag (fst t)) = arcs cxGraph @ [(1, 3)]"
    by blast
  from case_sum_ex[OF this(2)] obtain t where
    t: "greedyStep None 2 1 s' (2, 3, 1) = Inr t"
    and d: "is_directed_acyclic_graph (dag (fst s'))"
    and c: "\<not> is_directed_acyclic_graph (add_edge (dag (fst s')) 3 1 2)"
    by blast
  have "ogMap (fst t) = ogMap (fst s')
        \<and> (dag (fst t) = dag (fst s')
            \<or> dag (fst t) = remove_edge (add_edge (dag (fst s')) 3 1 2) 3 1)"
    using greedy_acyclic[OF d, where threshold = None and cfrac = 2 and maxN = 1
        and loc = "snd s'" and d = 2 and source = 3 and sink = 1 and t = t] t c by simp
  with h' s' t d c have 3: "\<exists>h s t. heightTable 7 (dag cxState) 0 Map.empty = Inr h
         \<and> greedyLoop None 2 1 (cxState, initialLocals (Some cxCands) h)
               (take 12 (orderedPairs cxState)) = Inr s
         \<and> is_directed_acyclic_graph (dag (fst s))
         \<and> greedyStep None 2 1 s (2, 3, 1) = Inr t
         \<and> \<not> is_directed_acyclic_graph (add_edge (dag (fst s)) 3 1 2)
         \<and> ogMap (fst t) = ogMap (fst s)
         \<and> (dag (fst t) = dag (fst s)
             \<or> dag (fst t) = remove_edge (add_edge (dag (fst s)) 3 1 2) 3 1)"
    by blast
  from exDag 1 2 3 show ?thesis by blast
qed

text \<open>
  Claim C2. For an internal node of the working tree and a budget \<open>k\<close>, the stored score should
  be the maximum over the splits of \<open>k\<close> of one minus the product over the children of
  \<open>1 - branchConservation * score\<close>. The loop starts the loss at \<open>0.\<close> and multiplies into it, so
  every split that fits scores \<open>1.0\<close>: in the working tree of \<open>X\<close>, with branch conservation
  \<open>1/2\<close>, the entry of node 0 for budget 1 holds score 1, where the formula gives \<open>1/2\<close>.
\<close>

theorem dpNode_score_is_one:
  "\<exists>tab. dpRun 1 [0 \<mapsto> 1 / 2, 4 \<mapsto> 1 / 2] dpExample (initTable 1 dpExample) = Inr tab
      \<and> tab 4 = Some [\<lparr>score = 0, solution = []\<rparr>, \<lparr>score = 1, solution = [4]\<rparr>]
      \<and> tab 0 = Some [\<lparr>score = 1, solution = []\<rparr>, \<lparr>score = 1, solution = [4]\<rparr>]
      \<and> specSurvival (\<lambda>c. 1 / 2) (\<lambda>c k. if c = 4 \<and> k = 1 then 1 else 0) [4] [1] = 1 / 2"
proof -
  from case_sum_ex[OF dp_eval] obtain tab where
    "dpRun 1 [0 \<mapsto> 1 / 2, 4 \<mapsto> 1 / 2] dpExample (initTable 1 dpExample) = Inr tab"
    "tab 4 = Some [\<lparr>score = 0, solution = []\<rparr>, \<lparr>score = 1, solution = [4]\<rparr>]"
    "tab 0 = Some [\<lparr>score = 1, solution = []\<rparr>, \<lparr>score = 1, solution = [4]\<rparr>]"
    by blast
  moreover have "specSurvival (\<lambda>c. 1 / 2) (\<lambda>c k. if c = 4 \<and> k = 1 then 1 else 0) [4] [1] = 1 / 2"
    by (simp add: specSurvival_def)
  ultimately show ?thesis by blast
qed

text \<open>
  Claim C3. After the dynamic program the entry for budget 0 should have score \<open>0.0\<close> at every
  node. In the same run the internal node 0 ends with score 1 for budget 0: the split
  \<open>(0, ..., 0)\<close> scores \<open>1.0\<close>, which is greater than the initial \<open>0.0\<close>, with an empty solution.
\<close>

theorem dp_budget_zero_score_is_one:
  "\<exists>tab row. dpRun 1 [0 \<mapsto> 1 / 2, 4 \<mapsto> 1 / 2] dpExample (initTable 1 dpExample) = Inr tab
      \<and> tab 0 = Some row \<and> score (row ! 0) = 1 \<and> score (row ! 0) \<noteq> 0
      \<and> preOrderTraversal dpExample = [(1, None), (0, Some 1), (4, Some 1)]"
proof -
  from case_sum_ex[OF dp_eval] obtain tab where
    "dpRun 1 [0 \<mapsto> 1 / 2, 4 \<mapsto> 1 / 2] dpExample (initTable 1 dpExample) = Inr tab"
    "tab 0 = Some [\<lparr>score = 1, solution = []\<rparr>, \<lparr>score = 1, solution = [4]\<rparr>]"
    by blast
  then show ?thesis by (auto simp: dpExample_def)
qed

text \<open>
  Claim C4. Run again on a map that is already populated, the greedy assigner should keep every
  list within \<open>maxNumOutgroups\<close>, which the comment above the method (line 134) gives as the
  largest number of outgroups of an entry of the map. The length of a list is compared with the
  bound only after an entry has been appended (line 191), and the test before it (line 165)
  looks only at names that are in the map already. So with \<open>maxNumOutgroups = 0\<close> the first
  run on the caterpillar gives \<open>X\<close> the outgroup \<open>C\<close>, and the second run with the same
  parameters keeps that list, of length 1.
\<close>

theorem greedy_exceeds_zero_bound:
  "(case greedy exState None None 2 0 of
      Inl e \<Rightarrow> False
    | Inr r \<Rightarrow>
        (case greedy r None None 2 0 of
           Inl e \<Rightarrow> False
         | Inr r' \<Rightarrow> entries r ''X'' = [(''C'', 2)] \<and> entries r' ''X'' = [(''C'', 2)]
                     \<and> \<not> int (length (entries r' ''X'')) \<le> 0))"
  by (rule exZeroTwice)

text \<open>
  What a run on a populated map does keep, for all parameters: nothing is removed or changed.
  For every name the new list is the old list with entries appended, sorted by distance with a
  stable sort; and for a bound of at least 1, a list that was within the bound stays within it.
\<close>

theorem greedy_extends_ogMap:
  assumes "greedy st threshold candidateSet cfrac maxN = Inr st'"
  shows "(\<exists>new. entries st' nm = sort_key snd (entries st nm @ new))
       \<and> sorted (map snd (entries st' nm))
       \<and> (1 \<le> maxN \<and> int (length (entries st nm)) \<le> maxN
            \<longrightarrow> int (length (entries st' nm)) \<le> maxN)"
proof -
  from assms obtain h s where
    loop: "greedyLoop threshold cfrac maxN (st, initialLocals candidateSet h) (orderedPairs st) = Inr s"
    and st': "st' = (fst s)\<lparr>ogMap := (\<lambda>n. map_option (sort_key snd) (ogMap (fst s) n))\<rparr>"
    by (rule greedy_result)
  have e: "entries st' nm = sort_key snd (entries (fst s) nm)"
    unfolding st' by (rule entries_sorted_map)
  from greedyLoop_extends[OF loop, of nm] have x: "extends st maxN nm (fst s)" by simp
  then obtain new where new: "entries (fst s) nm = entries st nm @ new"
    by (auto simp: extends_def)
  have 1: "\<exists>new. entries st' nm = sort_key snd (entries st nm @ new)"
    using e new by auto
  have 2: "sorted (map snd (entries st' nm))"
    unfolding e by simp
  have 3: "1 \<le> maxN \<and> int (length (entries st nm)) \<le> maxN
            \<longrightarrow> int (length (entries st' nm)) \<le> maxN"
    using x unfolding e by (auto simp: extends_def)
  from 1 2 3 show ?thesis by blast
qed

text \<open>On the two-branch tree: a run with one outgroup per node, then a run with two on its
  result, which appends \<open>W\<close> to the list of \<open>X\<close>.\<close>

theorem greedy_extends_ogMap_witness:
  "\<exists>st st'. greedy cxState None None 2 1 = Inr st
      \<and> greedy st None None 2 2 = Inr st'
      \<and> entries st ''X'' = [(''Y'', 2)]
      \<and> entries st' ''X'' = [(''Y'', 2), (''W'', 3)]
      \<and> (\<exists>new. entries st' ''X'' = sort_key snd (entries st ''X'' @ new))
      \<and> sorted (map snd (entries st' ''X''))
      \<and> (1::int) \<le> 2 \<and> int (length (entries st ''X'')) \<le> 2
      \<and> int (length (entries st' ''X'')) \<le> 2"
proof -
  from case_sum_ex[OF cxRerun] obtain st where st: "greedy cxState None None 2 1 = Inr st"
    and "case greedy st None None 2 2 of
           Inl e \<Rightarrow> False
         | Inr r' \<Rightarrow> entries st ''X'' = [(''Y'', 2)] \<and> entries r' ''X'' = [(''Y'', 2), (''W'', 3)]"
    by blast
  from case_sum_ex[OF this(2)] obtain st' where st': "greedy st None None 2 2 = Inr st'"
    and e: "entries st ''X'' = [(''Y'', 2)]" "entries st' ''X'' = [(''Y'', 2), (''W'', 3)]"
    by blast
  from greedy_extends_ogMap[OF st', of "''X''"] e st st' show ?thesis
    by (intro exI[of _ st] exI[of _ st']) simp
qed

text \<open>
  Claim C5, counterexample. A smaller threshold should never give more assignments in total.
  On the two-branch tree with the candidates \<open>X\<close>, \<open>Y\<close>, \<open>Z\<close>, threshold 0 gives two
  assignments (\<open>Y \<rightarrow> X\<close> and \<open>X \<rightarrow> Z\<close>), while threshold 2 and no threshold give one: there
  \<open>X \<rightarrow> Y\<close> is taken first, after which \<open>Y \<rightarrow> X\<close> would close a cycle and \<open>Y\<close> has no other
  candidate.
\<close>

theorem threshold_totals_counterexample:
  "greedyTotal cxState (map cxName [0, 1, 2, 3, 4, 5]) (Some 0) (Some cxCands) 2 1 = Inr 2
   \<and> greedyTotal cxState (map cxName [0, 1, 2, 3, 4, 5]) (Some 2) (Some cxCands) 2 1 = Inr 1
   \<and> greedyTotal cxState (map cxName [0, 1, 2, 3, 4, 5]) None (Some cxCands) 2 1 = Inr 1
   \<and> importTree cxTree = Inr cxState"
  using cxTotals cxImport by simp

text \<open>
  Claim C5, as amended. The threshold test of one pair is monotone in the threshold for a fixed
  height table: a pair skipped under a threshold is skipped under every smaller one, a pair
  that passes passes under every larger one, and without a threshold no pair is skipped by
  the test.
\<close>

theorem threshold_test_monotone:
  assumes "t1 \<le> t2"
  shows "(exceedsThreshold (Some t2) h source sink = Inr True
            \<longrightarrow> exceedsThreshold (Some t1) h source sink = Inr True)
       \<and> (exceedsThreshold (Some t1) h source sink = Inr False
            \<longrightarrow> exceedsThreshold (Some t2) h source sink = Inr False)
       \<and> exceedsThreshold None h source sink = Inr False"
  using assms by (auto simp: exceedsThreshold_def split: option.splits)

theorem threshold_test_monotone_witness:
  "(0::int) \<le> 2
   \<and> exceedsThreshold (Some 2) [1 \<mapsto> 1, 3 \<mapsto> 4] 1 3 = Inr True
   \<and> exceedsThreshold (Some 0) [1 \<mapsto> 1, 3 \<mapsto> 4] 1 3 = Inr True
   \<and> exceedsThreshold (Some 0) [1 \<mapsto> 1, 3 \<mapsto> 4] 3 1 = Inr False
   \<and> exceedsThreshold (Some 2) [1 \<mapsto> 1, 3 \<mapsto> 4] 3 1 = Inr False
   \<and> exceedsThreshold None [1 \<mapsto> 1, 3 \<mapsto> 4] 1 3 = Inr False"
proof -
  have le: "(0::int) \<le> 2" by simp
  have a: "exceedsThreshold (Some 2) [1 \<mapsto> 1, 3 \<mapsto> 4] 1 3 = Inr True"
    by (simp add: exceedsThreshold_def)
  have b: "exceedsThreshold (Some 0) [1 \<mapsto> 1, 3 \<mapsto> 4] 3 1 = Inr False"
    by (simp add: exceedsThreshold_def)
  from threshold_test_monotone[OF le, of "[1 \<mapsto> 1, 3 \<mapsto> 4]" 1 3] a
  have 1: "exceedsThreshold (Some 0) [1 \<mapsto> 1, 3 \<mapsto> 4] 1 3 = Inr True
           \<and> exceedsThreshold None [1 \<mapsto> 1, 3 \<mapsto> 4] 1 3 = Inr False" by blast
  from threshold_test_monotone[OF le, of "[1 \<mapsto> 1, 3 \<mapsto> 4]" 3 1] b
  have 2: "exceedsThreshold (Some 2) [1 \<mapsto> 1, 3 \<mapsto> 4] 3 1 = Inr False" by blast
  from le a b 1 2 show ?thesis by blast
qed

text \<open>
  Claim C6. The statistics of a leaf should count the records and bases of all its files.
  \<open>count\<close> and \<open>totalLen\<close> are reset for every file, so a directory yields the numbers of its
  last file: for the leaf \<open>A\<close>, one record of one base instead of three records of seven bases.
\<close>

theorem sequence_stats_of_last_file:
  "\<exists>info. importSequenceInfo exTree seqExample None Map.empty = Some (Inr info)
      \<and> info 2 = Some \<lparr>count = 1, totalLen = 1\<rparr>
      \<and> getNodeId exTree ''A'' = 2
      \<and> allFilesStats [RegularFile [(''s1'', ''ACGT''), (''s2'', ''AC'')], RegularFile [(''s3'', ''G'')]]
          = (3, 7)"
proof -
  obtain r where r: "importSequenceInfo exTree seqExample None Map.empty = r" by simp
  from seq_eval obtain info where "r = Some (Inr info)"
    "map info [2, 3, 1, 0] =
          [Some \<lparr>count = 1, totalLen = 1\<rparr>, Some \<lparr>count = 1, totalLen = 5\<rparr>,
           Some \<lparr>count = 1, totalLen = 5\<rparr>, Some \<lparr>count = 1, totalLen = 5\<rparr>]"
    unfolding r by (cases r) (auto split: sum.splits)
  moreover have "getNodeId exTree ''A'' = 2" by (simp add: exTree_def)
  moreover have "allFilesStats [RegularFile [(''s1'', ''ACGT''), (''s2'', ''AC'')], RegularFile [(''s3'', ''G'')]]
          = (3, 7)" by (simp add: allFilesStats_def)
  ultimately show ?thesis using r by auto
qed

text \<open>
  Claim C7. Stripping should remove every node that is not a subtree root and has a child. The
  recursion is reached only from a removed node, so with the root flagged nothing is removed:
  in the chain, node 1 is not flagged and has the child 2, and the graph comes back unchanged.
  With the root not flagged the call fails an assertion, and at a node with a parent it fails
  with a type error.
\<close>

theorem stripNonEvents_keeps_non_events:
  "stripNonEvents chainGraph 0 {0} = Inr chainGraph
   \<and> out_edges chainGraph 1 = Inr [(1, 2)]
   \<and> stripNonEvents chainGraph 0 {} = Inl AssertionError
   \<and> stripNonEvents chainGraph 1 {0} = Inl TypeError"
  by (rule strip_chain)

text \<open>
  Claim C8, counterexample. \<open>importTree\<close> should fail with \<open>InvalidTreeError\<close> on a graph
  that is not connected. The module has no such error and no test of connectivity: the
  caterpillar with the extra node 5, which no edge touches, is imported and both tables are
  built, node 5 with a distance to itself only.
\<close>

theorem importTree_accepts_disconnected:
  "importTree islandTree =
     Inr \<lparr>dag = islandGraph,
          dm = [(0, [(0, 0), (1, 1), (2, 2), (3, 2), (4, 1)]),
                (1, [(0, 1), (1, 0), (2, 1), (3, 1), (4, 2)]),
                (2, [(0, 2), (1, 1), (2, 0), (3, 2), (4, 3)]),
                (3, [(0, 2), (1, 1), (2, 2), (3, 0), (4, 3)]),
                (4, [(0, 1), (1, 2), (2, 3), (3, 3), (4, 0)]),
                (5, [(5, 0)])],
          dmDirected = [(0, [(0, 0), (1, 1), (2, 2), (3, 2), (4, 1)]),
                        (1, [(1, 0), (2, 1), (3, 1)]), (2, [(2, 0)]), (3, [(3, 0)]),
                        (4, [(4, 0)]), (5, [(5, 0)])],
          root_node = 0, ogMap = Map.empty, mcTree = islandTree\<rparr>
   \<and> in_edges islandGraph 5 = Inr [] \<and> out_edges islandGraph 5 = Inr []"
proof -
  have "stripNonEvents (nxDg islandTree) (rootId islandTree) (subtreeRoots islandTree)
          = Inr (nxDg islandTree)"
    by (rule stripNonEvents_root) (simp_all add: islandTree_def islandGraph_def exTree_def arcs_def)
  moreover have "nxDg islandTree = islandGraph" "rootId islandTree = 0"
    by (simp_all add: islandTree_def exTree_def)
  ultimately have "importTree islandTree =
     Inr \<lparr>dag = islandGraph,
          dm = [(0, [(0, 0), (1, 1), (2, 2), (3, 2), (4, 1)]),
                (1, [(0, 1), (1, 0), (2, 1), (3, 1), (4, 2)]),
                (2, [(0, 2), (1, 1), (2, 0), (3, 2), (4, 3)]),
                (3, [(0, 2), (1, 1), (2, 2), (3, 0), (4, 3)]),
                (4, [(0, 1), (1, 2), (2, 3), (3, 3), (4, 0)]),
                (5, [(5, 0)])],
          dmDirected = [(0, [(0, 0), (1, 1), (2, 2), (3, 2), (4, 1)]),
                        (1, [(1, 0), (2, 1), (3, 1)]), (2, [(2, 0)]), (3, [(3, 0)]),
                        (4, [(4, 0)]), (5, [(5, 0)])],
          root_node = 0, ogMap = Map.empty, mcTree = islandTree\<rparr>"
    using island_tables by (simp add: importTree_def del: stripNonEvents.simps)
  moreover have "in_edges islandGraph 5 = Inr []" "out_edges islandGraph 5 = Inr []"
    by (simp_all add: islandGraph_def graph_eval)
  ultimately show ?thesis by simp
qed

text \<open>
  Claim C8, as amended. On a well-formed input \<open>importTree\<close> succeeds and produces the two
  distance tables. When the root is a node of the graph and has no parent, no node has more than
  one parent, every node with a child is a subtree root (there is nothing to strip) and no
  branch length is negative, the import yields the graph as it was given, the directed and the
  undirected table of that graph and an empty map. That the graph is connected is not among the
  conditions.
\<close>

theorem importTree_well_formed:
  assumes "rootId t \<in> set (nodesG (nxDg t))"
    and "rootId t \<notin> snd ` set (arcs (nxDg t))"
    and "distinct (map snd (arcs (nxDg t)))"
    and "fst ` set (arcs (nxDg t)) \<subseteq> subtreeRoots t"
    and "\<forall>e \<in> set (edgesG (nxDg t)). 0 \<le> snd (snd e)"
  shows "\<exists>dd du. all_pairs_dijkstra_path_length (nxDg t) = Inr dd
           \<and> all_pairs_dijkstra_path_length (to_undirected (nxDg t)) = Inr du
           \<and> importTree t =
               Inr \<lparr>dag = nxDg t, dm = du, dmDirected = dd, root_node = rootId t,
                    ogMap = Map.empty, mcTree = t\<rparr>"
proof -
  have roots: "rootId t \<in> subtreeRoots t \<or> rootId t \<notin> fst ` set (arcs (nxDg t))"
    using assms(4) by auto
  have strip: "stripNonEvents (nxDg t) (rootId t) (subtreeRoots t) = Inr (nxDg t)"
    using assms(1,2) roots by (rule stripNonEvents_root)
  from all_pairs_ok[OF assms(5)]
  obtain dd where dd: "all_pairs_dijkstra_path_length (nxDg t) = Inr dd" by blast
  from all_pairs_ok[OF to_undirected_nonneg[OF assms(5)]]
  obtain du where du: "all_pairs_dijkstra_path_length (to_undirected (nxDg t)) = Inr du" by blast
  from strip dd du have "importTree t =
      Inr \<lparr>dag = nxDg t, dm = du, dmDirected = dd, root_node = rootId t,
           ogMap = Map.empty, mcTree = t\<rparr>"
    by (simp add: importTree_def del: stripNonEvents.simps)
  with dd du show ?thesis by blast
qed

text \<open>On the caterpillar, whose internal nodes \<open>root\<close> and \<open>X\<close> are both subtree roots.\<close>

theorem importTree_well_formed_witness:
  "rootId exTree \<in> set (nodesG (nxDg exTree))
   \<and> rootId exTree \<notin> snd ` set (arcs (nxDg exTree))
   \<and> distinct (map snd (arcs (nxDg exTree)))
   \<and> fst ` set (arcs (nxDg exTree)) \<subseteq> subtreeRoots exTree
   \<and> list_all (\<lambda>e. 0 \<le> snd (snd e)) (edgesG (nxDg exTree))
   \<and> all_pairs_dijkstra_path_length (nxDg exTree) = Inr (dmDirected exState)
   \<and> all_pairs_dijkstra_path_length (to_undirected (nxDg exTree)) = Inr (dm exState)
   \<and> importTree exTree = Inr exState"
proof -
  have g: "nxDg exTree = exGraph" by (simp add: exTree_def)
  have h: "rootId exTree \<in> set (nodesG (nxDg exTree))"
    "rootId exTree \<notin> snd ` set (arcs (nxDg exTree))"
    "distinct (map snd (arcs (nxDg exTree)))"
    "fst ` set (arcs (nxDg exTree)) \<subseteq> subtreeRoots exTree"
    by (simp_all add: exTree_def exGraph_def arcs_def)
  have w: "\<forall>e \<in> set (edgesG (nxDg exTree)). 0 \<le> snd (snd e)"
    by (simp add: exTree_def exGraph_def)
  from importTree_well_formed[OF h w] obtain dd du where
    dd: "all_pairs_dijkstra_path_length (nxDg exTree) = Inr dd"
    and du: "all_pairs_dijkstra_path_length (to_undirected (nxDg exTree)) = Inr du"
    and r: "importTree exTree =
             Inr \<lparr>dag = nxDg exTree, dm = du, dmDirected = dd, root_node = rootId exTree,
                  ogMap = Map.empty, mcTree = exTree\<rparr>"
    by blast
  from dd du exTables have e: "dd = dmDirected exState" "du = dm exState"
    by (simp_all add: g)
  have "\<lparr>dag = nxDg exTree, dm = dm exState, dmDirected = dmDirected exState,
         root_node = rootId exTree, ogMap = Map.empty, mcTree = exTree\<rparr> = exState"
    by (simp add: exState_def exTree_def)
  with r e have "importTree exTree = Inr exState" by simp
  with h w dd du e show ?thesis by (simp add: list_all_iff)
qed

text \<open>
  Claim C9. No name is listed among its own outgroups after a run of the greedy assigner. The
  tables made by \<open>importTree\<close> hold every node at distance 0 from itself, so the same-path test
  is true of every pair \<open>(x, x)\<close>; with names that tell the nodes apart, a run on a map without
  self entries (the empty map of \<open>importTree\<close>, or the result of an earlier run) yields a map
  without self entries.
\<close>

theorem greedy_never_self_outgroup:
  "(importTree t = Inr st0 \<longrightarrow> tablesOf (dag st0) st0 \<and> noSelfOutgroup st0)
   \<and> (tablesOf g st \<and> n \<in> set (nodesG g) \<longrightarrow> onSamePath st n n)
   \<and> (tablesOf g st \<and> inj_on (getName (mcTree st)) (set (nodesG g)) \<and> noSelfOutgroup st
        \<and> greedy st threshold candidateSet cfrac maxN = Inr st'
      \<longrightarrow> noSelfOutgroup st' \<and> tablesOf g st')"
proof (intro conjI; rule impI)
  assume "importTree t = Inr st0"
  from importTree_tables[OF this]
  show "tablesOf (dag st0) st0 \<and> noSelfOutgroup st0"
    by (simp add: noSelfOutgroup_def entries_def)
next
  assume "tablesOf g st \<and> n \<in> set (nodesG g)"
  then show "onSamePath st n n" by (auto intro: onSamePath_self)
next
  assume h: "tablesOf g st \<and> inj_on (getName (mcTree st)) (set (nodesG g)) \<and> noSelfOutgroup st
        \<and> greedy st threshold candidateSet cfrac maxN = Inr st'"
  then obtain hh s where
    loop: "greedyLoop threshold cfrac maxN (st, initialLocals candidateSet hh) (orderedPairs st) = Inr s"
    and st': "st' = (fst s)\<lparr>ogMap := (\<lambda>n. map_option (sort_key snd) (ogMap (fst s) n))\<rparr>"
    by (auto elim: greedy_result)
  let ?P = "\<lambda>x. noSelfOutgroup (fst x) \<and> tablesOf g (fst x) \<and> mcTree (fst x) = mcTree st"
  have "?P s"
  proof (rule greedyLoop_invariant[OF loop, where P = ?P])
    show "?P (st, initialLocals candidateSet hh)" using h by simp
  next
    fix a c b
    assume a: "?P a" and c: "c \<in> set (orderedPairs st)"
      and step: "greedyStep threshold cfrac maxN a c = Inr b"
    obtain sa la where [simp]: "a = (sa, la)" by (cases a)
    obtain d src snk where [simp]: "c = (d, src, snk)" by (cases c)
    obtain sb lb where [simp]: "b = (sb, lb)" by (cases b)
    from h c have n: "src \<in> set (nodesG g)" "snk \<in> set (nodesG g)"
      using orderedPairs_nodes[of g st c] by auto
    from greedyStep_noSelf[of threshold cfrac maxN sa la d src snk sb lb g] step a h n
    show "?P b" by simp
  qed
  then show "noSelfOutgroup st' \<and> tablesOf g st'"
    by (auto simp: st' noSelfOutgroup_def tablesOf_def entries_def split: option.splits)
qed

theorem greedy_never_self_outgroup_witness:
  "importTree exTree = Inr exState
   \<and> tablesOf (dag exState) exState
   \<and> inj_on (getName (mcTree exState)) (set (nodesG (dag exState)))
   \<and> noSelfOutgroup exState
   \<and> 1 \<in> set (nodesG (dag exState)) \<and> onSamePath exState 1 1
   \<and> (\<exists>r. greedy exState None None 2 1 = Inr r \<and> noSelfOutgroup r
          \<and> entries r ''X'' = [(''C'', 2)])"
proof -
  have inj: "inj_on (getName (mcTree exState)) (set (nodesG (dag exState)))"
    by (simp add: exState_def exTree_def exGraph_def exName_def inj_on_def)
  from case_sum_ex[OF exRun] obtain r where r: "greedy exState None None 2 1 = Inr r"
    and e: "entries r ''X'' = [(''C'', 2)]" by blast
  note t = greedy_never_self_outgroup[where t = exTree and ?st0.0 = exState and g = "dag exState"
      and st = exState and n = 1 and threshold = None and candidateSet = None and cfrac = 2
      and maxN = 1 and st' = r]
  from t exImport have a: "tablesOf (dag exState) exState \<and> noSelfOutgroup exState" by blast
  have n: "1 \<in> set (nodesG (dag exState))" by (simp add: exState_def exGraph_def)
  with t a have s: "onSamePath exState 1 1" by blast
  from t a inj r have "noSelfOutgroup r" by blast
  with exImport a inj n s r e show ?thesis by blast
qed

text \<open>
  Claim C10. \<open>compute\<close> starts from an empty map: its result does not depend on the map the
  object held before, and every name that has an entry afterwards is the name of a node of the
  traversal that is not a leaf.
\<close>

theorem compute_discards_prior_map:
  "(sameButMap a b \<longrightarrow> compute working a = compute working b)
   \<and> (compute working a = Inr a' \<and> ogMap a' nm = Some sol
        \<longrightarrow> (\<exists>n \<in> set (breadthFirstTraversal (mcTree a) (rootId (mcTree a))).
               \<not> isLeaf (mcTree a) n \<and> getName (mcTree a) n = nm))"
proof (rule conjI; rule impI)
  assume "sameButMap a b"
  then have "emptyMap a = emptyMap b" "mcTree a = mcTree b"
    by (simp_all add: sameButMap_def emptyMap_def)
  then show "compute working a = compute working b"
    by (simp add: compute_def)
next
  assume h: "compute working a = Inr a' \<and> ogMap a' nm = Some sol"
  then have "computeLoop working (emptyMap a)
               (breadthFirstTraversal (mcTree a) (rootId (mcTree a))) = Inr a'"
    by (simp add: compute_def)
  from computeLoop_map[OF this]
  have "ogMap a' nm = ogMap (emptyMap a) nm
        \<or> (\<exists>n \<in> set (breadthFirstTraversal (mcTree a) (rootId (mcTree a))).
               \<not> isLeaf (mcTree (emptyMap a)) n \<and> getName (mcTree (emptyMap a)) n = nm)"
    by blast
  moreover have "ogMap (emptyMap a) nm = None" "mcTree (emptyMap a) = mcTree a"
    by (simp_all add: emptyMap_def)
  ultimately show "\<exists>n \<in> set (breadthFirstTraversal (mcTree a) (rootId (mcTree a))).
               \<not> isLeaf (mcTree a) n \<and> getName (mcTree a) n = nm"
    using h by auto
qed

text \<open>On the caterpillar, with a map that held entries for \<open>X\<close> and \<open>C\<close>: afterwards \<open>X\<close> has the
  solution of the dynamic program and \<open>C\<close> has no entry.\<close>

theorem compute_discards_prior_map_witness:
  "sameButMap dynExample (emptyMap dynExample)
   \<and> compute exWorking dynExample = compute exWorking (emptyMap dynExample)
   \<and> ogMap dynExample ''C'' = Some [(''A'', 3)]
   \<and> (\<exists>a. compute exWorking dynExample = Inr a \<and> ogMap a ''X'' = Some [4] \<and> ogMap a ''C'' = None
          \<and> (\<exists>n \<in> set (breadthFirstTraversal (mcTree dynExample) (rootId (mcTree dynExample))).
                \<not> isLeaf (mcTree dynExample) n \<and> getName (mcTree dynExample) n = ''X''))"
proof -
  have s: "sameButMap dynExample (emptyMap dynExample)"
    by (simp add: sameButMap_def emptyMap_def)
  have c: "ogMap dynExample ''C'' = Some [(''A'', 3)]"
    by (simp add: dynExample_def)
  from case_sum_ex[OF dyn_eval] obtain a where a: "compute exWorking dynExample = Inr a"
    and m: "ogMap a ''X'' = Some [4]" "ogMap a ''C'' = None" by blast
  note t = compute_discards_prior_map[of dynExample "emptyMap dynExample" exWorking a "''X''" "[4]"]
  from t s have 1: "compute exWorking dynExample = compute exWorking (emptyMap dynExample)"
    by blast
  from t a m have 2: "\<exists>n \<in> set (breadthFirstTraversal (mcTree dynExample) (rootId (mcTree dynExample))).
                \<not> isLeaf (mcTree dynExample) n \<and> getName (mcTree dynExample) n = ''X''"
    by blast
  from s 1 c a m 2 show ?thesis by blast
qed

end
